theory Spec2Isabelle
  imports Complex_Main
begin

section \<open>The SSE client of front/src/lib/sse-client.ts\<close>

text \<open>
  The development embeds the class \<open>SSEClient\<close>: the frame decoder
  (\<open>parseLine\<close>, \<open>dispatchMessage\<close> and the read loop of \<open>connect\<close>), the request
  construction, and the connection life cycle (\<open>connect\<close>, \<open>disconnect\<close>, the
  \<open>catch\<close> block with its retry policy).

  JavaScript strings are modelled as \<open>string\<close>; the two platform functions
  \<open>JSON.parse\<close> and \<open>JSON.stringify\<close> are not code of the repository and are
  taken as parameters of the model, so every theorem holds for whatever they compute.
\<close>

subsection \<open>Values produced by \<open>JSON.parse\<close>\<close>

text \<open>
  A parsed value is \<open>null\<close>, a boolean, a number, a string, an array or an object.
  The client never computes with a number: it only tests it for truthiness, so the
  numeric carrier is \<open>rat\<close> and a number is falsy exactly when it is zero
  (\<open>JSON.parse\<close> never yields \<open>NaN\<close>). An object is an association list read
  with \<open>map_of\<close>.
\<close>

datatype json =
    JNull
  | JBool bool
  | JNum rat
  | JStr string
  | JArr "json list"
  | JObj "(string \<times> json) list"

text \<open>\<open>typeof v === "object"\<close>: true of \<open>null\<close>, arrays and objects.\<close>

fun typeof_object :: "json \<Rightarrow> bool" where
  "typeof_object JNull = True"
| "typeof_object (JArr xs) = True"
| "typeof_object (JObj kvs) = True"
| "typeof_object (JBool b) = False"
| "typeof_object (JNum n) = False"
| "typeof_object (JStr s) = False"

text \<open>
  \<open>v?.key\<close> for \<open>key\<close> one of \<open>type\<close>, \<open>timestamp\<close>: \<open>None\<close> stands for
  \<open>undefined\<close>. Only an object has such a property; \<open>null?.key\<close> and the same
  on an array are \<open>undefined\<close>.
\<close>

fun get_prop :: "json \<Rightarrow> string \<Rightarrow> json option" where
  "get_prop (JObj kvs) k = map_of kvs k"
| "get_prop JNull k = None"
| "get_prop (JBool b) k = None"
| "get_prop (JNum n) k = None"
| "get_prop (JStr s) k = None"
| "get_prop (JArr xs) k = None"

text \<open>JavaScript truthiness, on a value that may be \<open>undefined\<close>.\<close>

fun truthy :: "json option \<Rightarrow> bool" where
  "truthy None = False"
| "truthy (Some JNull) = False"
| "truthy (Some (JBool b)) = b"
| "truthy (Some (JNum n)) = (n \<noteq> 0)"
| "truthy (Some (JStr s)) = (s \<noteq> [])"
| "truthy (Some (JArr xs)) = True"
| "truthy (Some (JObj kvs)) = True"

subsection \<open>Messages and the frame buffer\<close>

text \<open>
  \<open>timestamp\<close> of a message is either the payload's own value or the string
  \<open>new Date().toISOString()\<close> made when the message is dispatched. The wall clock
  is outside the model; a generated stamp is the constructor \<open>Generated\<close>.
\<close>

datatype stamp = FromPayload json | Generated

text \<open>
  Interface \<open>SSEMessage\<close>. The field \<open>type\<close> is declared a string, but at run time
  it holds whatever truthy value the payload carries, hence \<open>json\<close>.
\<close>

record SSEMessage =
  msg_event :: string
  msg_type :: json
  msg_data :: json
  msg_timestamp :: stamp

text \<open>Interface \<open>SSEEventBuffer\<close>.\<close>

record SSEEventBuffer =
  buf_event :: string
  buf_data :: "string list"
  buf_id :: "string option"

type_synonym json_parse = "string \<Rightarrow> json option"

abbreviation LF :: char where "LF \<equiv> CHR 0x0A"
abbreviation CR :: char where "CR \<equiv> CHR 0x0D"

text \<open>The buffer a connection starts with, and to which a dispatch resets.\<close>

definition empty_buffer :: SSEEventBuffer where
  "empty_buffer = \<lparr>buf_event = ''message'', buf_data = [], buf_id = None\<rparr>"

subsection \<open>\<open>dispatchMessage\<close>\<close>

text \<open>\<open>Array.prototype.join("\n")\<close>.\<close>

fun join_nl :: "string list \<Rightarrow> string" where
  "join_nl [] = []"
| "join_nl [x] = x"
| "join_nl (x # y # ys) = x @ LF # join_nl (y # ys)"

text \<open>
  \<open>try { parsedData = JSON.parse(rawData) } catch { }\<close>: a parse that throws
  (\<open>None\<close>) leaves the raw string.
\<close>

definition parsedData :: "json_parse \<Rightarrow> string \<Rightarrow> json" where
  "parsedData P rawData = (case P rawData of Some v \<Rightarrow> v | None \<Rightarrow> JStr rawData)"

text \<open>
  The message built from the buffer, and the reset buffer.
  \<open>a || b\<close> is \<open>a\<close> when \<open>a\<close> is truthy and \<open>b\<close> otherwise; \<open>!message.timestamp\<close>
  is true of \<open>undefined\<close> and of every falsy payload value.
\<close>

definition dispatchMessage :: "json_parse \<Rightarrow> SSEEventBuffer \<Rightarrow> SSEMessage \<times> SSEEventBuffer" where
  "dispatchMessage P buffer =
    (let rawData = join_nl (buf_data buffer);
         pd = parsedData P rawData;
         ty = (if typeof_object pd
               then (if truthy (get_prop pd ''type'') then the (get_prop pd ''type'')
                     else JStr ''message'')
               else JStr ''message'');
         ts = (if typeof_object pd then get_prop pd ''timestamp'' else None);
         message = \<lparr>msg_event = (if buf_event buffer \<noteq> [] then buf_event buffer else ''message''),
                    msg_type = ty,
                    msg_data = pd,
                    msg_timestamp = (if \<not> truthy ts then Generated else FromPayload (the ts))\<rparr>
     in (message, \<lparr>buf_event = ''message'', buf_data = [], buf_id = None\<rparr>))"

subsection \<open>\<open>parseLine\<close>\<close>

text \<open>\<open>line.replace(/\r$/, "")\<close>: one carriage return at the very end is removed.\<close>

definition normalized :: "string \<Rightarrow> string" where
  "normalized line = (if line \<noteq> [] \<and> last line = CR then butlast line else line)"

text \<open>\<open>String.prototype.indexOf\<close> of a single character; \<open>None\<close> is \<open>-1\<close>.\<close>

fun indexOf :: "string \<Rightarrow> char \<Rightarrow> nat option" where
  "indexOf [] c = None"
| "indexOf (x # xs) c = (if x = c then Some 0 else map_option Suc (indexOf xs c))"

text \<open>\<open>s.startsWith(c)\<close> for a one-character string \<open>c\<close>.\<close>

definition startsWith :: "string \<Rightarrow> char \<Rightarrow> bool" where
  "startsWith s c = (case s of [] \<Rightarrow> False | x # xs \<Rightarrow> x = c)"

text \<open>
  One line updates the buffer and dispatches at most one message (the list holds
  the calls of \<open>onMessage\<close> the line causes, in order).
\<close>

definition parseLine :: "json_parse \<Rightarrow> string \<Rightarrow> SSEEventBuffer \<Rightarrow> SSEEventBuffer \<times> SSEMessage list" where
  "parseLine P line buffer =
    (let n = normalized line in
     if n = [] then
       (if length (buf_data buffer) > 0
        then (let (m, b) = dispatchMessage P buffer in (b, [m]))
        else (buffer, []))
     else if startsWith n (CHR '':'') then (buffer, [])
     else (case indexOf n (CHR '':'') of
         None \<Rightarrow> (buffer, [])
       | Some colonIndex \<Rightarrow>
          (let field = take colonIndex n;
               value0 = drop (colonIndex + 1) n;
               value = (if startsWith value0 (CHR '' '') then drop 1 value0 else value0)
           in if field = ''event'' then (buffer\<lparr>buf_event := value\<rparr>, [])
              else if field = ''data'' then (buffer\<lparr>buf_data := buf_data buffer @ [value]\<rparr>, [])
              else if field = ''id'' then (buffer\<lparr>buf_id := Some value\<rparr>, [])
              else (buffer, []))))"

text \<open>\<open>for (const line of lines) this.parseLine(line, buffer)\<close>.\<close>

fun parseLines :: "json_parse \<Rightarrow> string list \<Rightarrow> SSEEventBuffer \<Rightarrow> SSEEventBuffer \<times> SSEMessage list" where
  "parseLines P [] buffer = (buffer, [])"
| "parseLines P (line # lines) buffer =
     (let (b1, ms1) = parseLine P line buffer;
          (b2, ms2) = parseLines P lines b1
      in (b2, ms1 @ ms2))"

subsection \<open>The read loop\<close>

text \<open>
  \<open>partial.split("\n")\<close>: the segments between line feeds; never empty, and the
  last segment is what follows the last line feed.
\<close>

fun split_nl :: "string \<Rightarrow> string list" where
  "split_nl [] = [[]]"
| "split_nl (c # cs) =
     (if c = LF then [] # split_nl cs
      else (case split_nl cs of [] \<Rightarrow> [[c]] | l # ls \<Rightarrow> (c # l) # ls))"

text \<open>
  \<open>Array.prototype.pop\<close>: the last element (\<open>undefined\<close> on an empty array) and
  the array without it.
\<close>

definition pop :: "'a list \<Rightarrow> 'a option \<times> 'a list" where
  "pop xs = (if xs = [] then (None, []) else (Some (last xs), butlast xs))"

text \<open>
  The decoder state of one connection: the carried partial line and the frame buffer.
  A chunk is the text \<open>decoder.decode(value, {stream: true})\<close> yields for one read.
\<close>

record decoder =
  partial :: string
  buffer :: SSEEventBuffer

definition initial_decoder :: decoder where
  "initial_decoder = \<lparr>partial = [], buffer = empty_buffer\<rparr>"

text \<open>
  One turn of the loop on a chunk:
  \<open>partial += chunk; lines = partial.split("\n"); partial = lines.pop() || ""\<close>, then
  every remaining line goes through \<open>parseLine\<close>.
\<close>

definition feed :: "json_parse \<Rightarrow> string \<Rightarrow> decoder \<Rightarrow> decoder \<times> SSEMessage list" where
  "feed P chunk d =
    (let (popped, lines) = pop (split_nl (partial d @ chunk));
         partial' = (case popped of None \<Rightarrow> [] | Some s \<Rightarrow> if s \<noteq> [] then s else []);
         (b, ms) = parseLines P lines (buffer d)
     in (\<lparr>partial = partial', buffer = b\<rparr>, ms))"

text \<open>The loop over the successive chunks of one connection.\<close>

fun feed_all :: "json_parse \<Rightarrow> string list \<Rightarrow> decoder \<Rightarrow> decoder \<times> SSEMessage list" where
  "feed_all P [] d = (d, [])"
| "feed_all P (chunk # chunks) d =
     (let (d1, ms1) = feed P chunk d;
          (d2, ms2) = feed_all P chunks d1
      in (d2, ms1 @ ms2))"

text \<open>The messages a fresh connection delivers for a sequence of chunks.\<close>

definition decode :: "json_parse \<Rightarrow> string list \<Rightarrow> SSEMessage list" where
  "decode P chunks = snd (feed_all P chunks initial_decoder)"

section \<open>The connection\<close>

subsection \<open>Options and the request\<close>

datatype http_method = GET | POST

text \<open>
  \<open>body?: Record<string, unknown> | string\<close>. The content of a record body is kept
  as a \<open>json\<close> value; what \<open>JSON.stringify\<close> makes of it, a text or an exception, is
  the parameter below.
\<close>

datatype body = BodyString string | BodyRecord json

text \<open>
  Interface \<open>SSEClientOptions\<close>; an absent optional field is \<open>None\<close>. The four
  callbacks are not fields of the model: every call of one is recorded as an
  \<open>effect\<close> (a callback that is not registered makes the recorded call a no-op).
  The two numeric options are counts of milliseconds and of attempts, kept as \<open>int\<close>.
  The field \<open>method\<close> of the source is \<open>opt_method\<close> here. The interface requires
  \<open>url\<close>, but \<open>updateOptions\<close> can set it to \<open>undefined\<close> like any other key, so
  it is optional in the state; \<open>fetch\<close> is called with whatever is there.
\<close>

record SSEClientOptions =
  url :: "string option"
  opt_method :: "http_method option"
  body :: "body option"
  headers :: "(string \<rightharpoonup> string) option"
  autoReconnect :: "bool option"
  reconnectDelay :: "int option"
  maxReconnectAttempts :: "int option"

text \<open>
  \<open>Partial<SSEClientOptions>\<close>, the argument of \<open>updateOptions\<close>. A key is absent
  (\<open>None\<close>), present with the value \<open>undefined\<close> (\<open>Some None\<close>), or present with a
  value (\<open>Some (Some v)\<close>).
\<close>

record SSEClientOptionsPartial =
  new_url :: "string option option"
  new_method :: "http_method option option"
  new_body :: "body option option"
  new_headers :: "(string \<rightharpoonup> string) option option"
  new_autoReconnect :: "bool option option"
  new_reconnectDelay :: "int option option"
  new_maxReconnectAttempts :: "int option option"

text \<open>What the \<open>catch\<close> block can receive.\<close>

datatype failure =
    HttpError nat string    \<comment> \<open>\<open>new Error(`HTTP ${status}: ${statusText}`)\<close>\<close>
  | NoResponseBody          \<comment> \<open>\<open>new Error("No response body")\<close>\<close>
  | Thrown string           \<comment> \<open>anything else thrown inside \<open>try\<close>, by its message\<close>

text \<open>
  \<open>JSON.stringify\<close> on a record body: the text, or \<open>Inl\<close> the message of the
  error it throws (a cyclic record, a \<open>BigInt\<close>).
\<close>

type_synonym json_stringify = "json \<Rightarrow> string + string"

text \<open>\<open>RequestInit\<close> as passed to \<open>fetch\<close>; the signal is the number of its controller.\<close>

record RequestInit =
  req_method :: http_method
  req_headers :: "string \<rightharpoonup> string"
  req_body :: "string option"
  req_signal :: nat

text \<open>Truthiness of \<open>body\<close>: \<open>undefined\<close> and the empty string are falsy.\<close>

fun body_truthy :: "body option \<Rightarrow> bool" where
  "body_truthy None = False"
| "body_truthy (Some (BodyString s)) = (s \<noteq> [])"
| "body_truthy (Some (BodyRecord r)) = True"

text \<open>
  Lines 60 to 76 of the source: the default headers, the caller's headers spread
  over them, and for a \<open>POST\<close> with a truthy body the content type and the body.
\<close>

definition buildRequest :: "json_stringify \<Rightarrow> SSEClientOptions \<Rightarrow> nat \<Rightarrow> failure + RequestInit" where
  "buildRequest S opts signal =
    (let m = (case opt_method opts of None \<Rightarrow> GET | Some x \<Rightarrow> x);
         requestHeaders =
           [''Accept'' \<mapsto> ''text/event-stream'', ''Cache-Control'' \<mapsto> ''no-cache'']
             ++ (case headers opts of None \<Rightarrow> Map.empty | Some h \<Rightarrow> h);
         requestInit = \<lparr>req_method = m, req_headers = requestHeaders,
                        req_body = None, req_signal = signal\<rparr>
     in if m = POST \<and> body_truthy (body opts) then
          (case body opts of
             Some (BodyString s) \<Rightarrow>
               Inr (requestInit\<lparr>req_headers := requestHeaders(''Content-Type'' \<mapsto> ''application/json''),
                                req_body := Some s\<rparr>)
           | Some (BodyRecord r) \<Rightarrow>
               (case S r of
                  Inl e \<Rightarrow> Inl (Thrown e)
                | Inr s \<Rightarrow>
                    Inr (requestInit\<lparr>req_headers := requestHeaders(''Content-Type'' \<mapsto> ''application/json''),
                                     req_body := Some s\<rparr>))
           | None \<Rightarrow> Inr requestInit)
        else Inr requestInit)"

subsection \<open>State\<close>

text \<open>
  Each call of \<open>connect\<close> creates one \<open>AbortController\<close> and starts one
  \<open>performConnect\<close>. A connection is that pair: the controller's \<open>signal.aborted\<close>,
  how far \<open>performConnect\<close> has come, and the three options its closure captured.
\<close>

datatype phase =
    Fetching            \<comment> \<open>awaiting \<open>fetch\<close>\<close>
  | Reading decoder     \<comment> \<open>in the read loop, awaiting \<open>reader.read()\<close>\<close>
  | Ended               \<comment> \<open>\<open>performConnect\<close> has returned\<close>

record connection =
  aborted :: bool
  phase :: phase
  c_autoReconnect :: bool
  c_reconnectDelay :: int
  c_maxReconnectAttempts :: int

text \<open>
  The fields of the class, and the two things of the runtime they refer to: the
  connections started so far (a controller is its index in the list) and the timers
  set and neither fired nor cleared (handle and delay). A timer handle is truthy (in a
  browser a positive integer, counted here from 1), so \<open>if (this.reconnectTimeout)\<close>
  tests whether a handle is stored.
\<close>

record SSEClient =
  abortController :: "nat option"
  reconnectTimeout :: "nat option"
  reconnectAttempts :: nat
  options :: SSEClientOptions
  connections :: "connection list"
  timers :: "(nat \<times> int) list"
  timer_count :: nat

definition new_client :: "SSEClientOptions \<Rightarrow> SSEClient" where
  "new_client opts =
     \<lparr>abortController = None, reconnectTimeout = None, reconnectAttempts = 0,
      options = opts, connections = [], timers = [], timer_count = 1\<rparr>"

text \<open>What the client does to the outside: the request it issues and the callbacks it calls.\<close>

datatype effect =
    Fetch "string option" RequestInit
  | OnOpen
  | OnMessage SSEMessage
  | OnError failure
  | OnClose

subsection \<open>\<open>updateOptions\<close> and \<open>disconnect\<close>\<close>

text \<open>
  The spread \<open>{ ...this.options, ...newOptions }\<close>, key by key: a key present in
  \<open>newOptions\<close> replaces the old value, also when its value is \<open>undefined\<close>.
\<close>

definition override :: "'a option \<Rightarrow> 'a option option \<Rightarrow> 'a option" where
  "override old new = (case new of None \<Rightarrow> old | Some v \<Rightarrow> v)"

definition updateOptions :: "SSEClientOptionsPartial \<Rightarrow> SSEClient \<Rightarrow> SSEClient" where
  "updateOptions newOptions st =
     st\<lparr>options :=
          \<lparr>url = override (url (options st)) (new_url newOptions),
           opt_method = override (opt_method (options st)) (new_method newOptions),
           body = override (body (options st)) (new_body newOptions),
           headers = override (headers (options st)) (new_headers newOptions),
           autoReconnect = override (autoReconnect (options st)) (new_autoReconnect newOptions),
           reconnectDelay = override (reconnectDelay (options st)) (new_reconnectDelay newOptions),
           maxReconnectAttempts =
             override (maxReconnectAttempts (options st)) (new_maxReconnectAttempts newOptions)\<rparr>\<rparr>"

text \<open>\<open>controller.abort()\<close> and \<open>clearTimeout(handle)\<close> on the runtime.\<close>

definition abort :: "nat \<Rightarrow> connection list \<Rightarrow> connection list" where
  "abort c cs = (if c < length cs then cs[c := (cs ! c)\<lparr>aborted := True\<rparr>] else cs)"

definition clearTimeout :: "nat \<Rightarrow> (nat \<times> int) list \<Rightarrow> (nat \<times> int) list" where
  "clearTimeout t ts = filter (\<lambda>p. fst p \<noteq> t) ts"

definition disconnect :: "bool \<Rightarrow> SSEClient \<Rightarrow> SSEClient" where
  "disconnect resetAttempts st =
    (let st1 = (case abortController st of
                  None \<Rightarrow> st
                | Some c \<Rightarrow> st\<lparr>connections := abort c (connections st), abortController := None\<rparr>);
         st2 = (case reconnectTimeout st1 of
                  None \<Rightarrow> st1
                | Some t \<Rightarrow> st1\<lparr>timers := clearTimeout t (timers st1), reconnectTimeout := None\<rparr>)
     in if resetAttempts then st2\<lparr>reconnectAttempts := 0\<rparr> else st2)"

subsection \<open>\<open>connect\<close>\<close>

definition set_phase :: "nat \<Rightarrow> phase \<Rightarrow> SSEClient \<Rightarrow> SSEClient" where
  "set_phase c p st =
     (if c < length (connections st)
      then st\<lparr>connections := (connections st)[c := (connections st ! c)\<lparr>phase := p\<rparr>]\<rparr>
      else st)"

text \<open>
  The \<open>catch\<close> block (lines 113 to 127) run by connection \<open>c\<close>, which then has
  returned. The options are the captured ones; the attempt count is the live field.
\<close>

definition catch_block :: "nat \<Rightarrow> failure \<Rightarrow> SSEClient \<Rightarrow> SSEClient \<times> effect list" where
  "catch_block c err st =
    (let conn = connections st ! c;
         st1 = set_phase c Ended st
     in if aborted conn then (st1, [])
        else if c_autoReconnect conn \<and>
                (c_maxReconnectAttempts conn = 0 \<or>
                 int (reconnectAttempts st) < c_maxReconnectAttempts conn)
        then (st1\<lparr>reconnectAttempts := reconnectAttempts st + 1,
                  reconnectTimeout := Some (timer_count st),
                  timers := timers st @ [(timer_count st, c_reconnectDelay conn)],
                  timer_count := timer_count st + 1\<rparr>,
              [OnError err])
        else (st1, [OnError err]))"

text \<open>
  \<open>connect\<close>: the teardown, a new controller, the destructuring of the options with
  their defaults, and \<open>performConnect\<close> up to its first \<open>await\<close>. An error thrown
  while the request is built reaches the \<open>catch\<close> block at once.
\<close>

definition connect :: "json_stringify \<Rightarrow> SSEClient \<Rightarrow> SSEClient \<times> effect list" where
  "connect S st0 =
    (let st = disconnect False st0;
         c = length (connections st);
         opts = options st;
         conn = \<lparr>aborted = False, phase = Fetching,
                 c_autoReconnect = (case autoReconnect opts of None \<Rightarrow> False | Some b \<Rightarrow> b),
                 c_reconnectDelay = (case reconnectDelay opts of None \<Rightarrow> 3000 | Some d \<Rightarrow> d),
                 c_maxReconnectAttempts =
                   (case maxReconnectAttempts opts of None \<Rightarrow> 5 | Some n \<Rightarrow> n)\<rparr>;
         st1 = st\<lparr>abortController := Some c, connections := connections st @ [conn]\<rparr>
     in case buildRequest S opts c of
          Inl err \<Rightarrow> catch_block c err st1
        | Inr requestInit \<Rightarrow> (st1, [Fetch (url opts) requestInit]))"

subsection \<open>What happens to a client\<close>

text \<open>The part of a \<open>Response\<close> the client reads.\<close>

record response =
  ok :: bool
  status :: nat
  statusText :: string
  has_body :: bool

text \<open>
  A client is driven by its caller (the three public methods) and by the runtime:
  a pending timer fires, the \<open>fetch\<close> of a connection resolves, an awaited
  \<open>fetch\<close> or \<open>read\<close> rejects, a \<open>read\<close> yields a chunk of text or reports the end.
  The handlers run to completion one at a time; the callbacks neither throw nor call
  back into the client. An event may reach a connection whose signal is aborted (a
  response or a chunk that was already on its way): the handler is then the code's,
  which tests the signal in the \<open>catch\<close> block only.
\<close>

datatype event =
    Connect
  | Disconnect bool
  | UpdateOptions SSEClientOptionsPartial
  | TimerFires nat
  | FetchResolves nat response
  | Rejects nat string
  | ReadChunk nat string
  | ReadDone nat

text \<open>Lines 78 to 92: the continuation of \<open>performConnect\<close> after \<open>fetch\<close>.\<close>

definition fetch_resolves :: "nat \<Rightarrow> response \<Rightarrow> SSEClient \<Rightarrow> SSEClient \<times> effect list" where
  "fetch_resolves c r st =
     (if \<not> ok r then catch_block c (HttpError (status r) (statusText r)) st
      else if \<not> has_body r then catch_block c NoResponseBody st
      else (set_phase c (Reading initial_decoder) (st\<lparr>reconnectAttempts := 0\<rparr>), [OnOpen]))"

text \<open>Lines 97 to 112: one turn of the read loop, on a chunk and on the end of the stream.\<close>

definition read_chunk :: "json_parse \<Rightarrow> nat \<Rightarrow> decoder \<Rightarrow> string \<Rightarrow> SSEClient \<Rightarrow> SSEClient \<times> effect list" where
  "read_chunk P c d chunk st =
     (let (d', ms) = feed P chunk d in (set_phase c (Reading d') st, map OnMessage ms))"

definition read_done :: "nat \<Rightarrow> SSEClient \<Rightarrow> SSEClient \<times> effect list" where
  "read_done c st = (set_phase c Ended st, [OnClose])"

text \<open>
  One event. An event for a connection that does not exist, has returned, or is not
  at the matching \<open>await\<close>, and the firing of a timer that is not pending, cannot
  happen and leave the state as it is.
\<close>

definition phase_of :: "SSEClient \<Rightarrow> nat \<Rightarrow> phase" where
  "phase_of st c = (if c < length (connections st) then phase (connections st ! c) else Ended)"

fun step :: "json_parse \<Rightarrow> json_stringify \<Rightarrow> event \<Rightarrow> SSEClient \<Rightarrow> SSEClient \<times> effect list" where
  "step P S Connect st = connect S st"
| "step P S (Disconnect resetAttempts) st = (disconnect resetAttempts st, [])"
| "step P S (UpdateOptions newOptions) st = (updateOptions newOptions st, [])"
| "step P S (TimerFires t) st =
     (if t \<in> fst ` set (timers st)
      then connect S (st\<lparr>timers := clearTimeout t (timers st)\<rparr>)
      else (st, []))"
| "step P S (FetchResolves c r) st =
     (case phase_of st c of Fetching \<Rightarrow> fetch_resolves c r st | _ \<Rightarrow> (st, []))"
| "step P S (Rejects c msg) st =
     (case phase_of st c of Ended \<Rightarrow> (st, []) | _ \<Rightarrow> catch_block c (Thrown msg) st)"
| "step P S (ReadChunk c chunk) st =
     (case phase_of st c of Reading d \<Rightarrow> read_chunk P c d chunk st | _ \<Rightarrow> (st, []))"
| "step P S (ReadDone c) st =
     (case phase_of st c of Reading d \<Rightarrow> read_done c st | _ \<Rightarrow> (st, []))"

text \<open>A sequence of events, with the effects in order.\<close>

fun run :: "json_parse \<Rightarrow> json_stringify \<Rightarrow> event list \<Rightarrow> SSEClient \<Rightarrow> SSEClient \<times> effect list" where
  "run P S [] st = (st, [])"
| "run P S (e # es) st =
     (let (st1, out1) = step P S e st;
          (st2, out2) = run P S es st1
      in (st2, out1 @ out2))"

section \<open>Notions used in the statements\<close>

subsection \<open>Connections and the invariant of the client\<close>

text \<open>A request is in flight while its signal is not aborted and \<open>performConnect\<close> runs.\<close>

definition in_flight :: "connection \<Rightarrow> bool" where
  "in_flight c \<longleftrightarrow> \<not> aborted c \<and> phase c \<noteq> Ended"

text \<open>The connection \<open>connect\<close> starts: the three options as destructured, with defaults.\<close>

definition new_connection :: "SSEClientOptions \<Rightarrow> connection" where
  "new_connection opts =
     \<lparr>aborted = False, phase = Fetching,
      c_autoReconnect = (case autoReconnect opts of None \<Rightarrow> False | Some b \<Rightarrow> b),
      c_reconnectDelay = (case reconnectDelay opts of None \<Rightarrow> 3000 | Some d \<Rightarrow> d),
      c_maxReconnectAttempts = (case maxReconnectAttempts opts of None \<Rightarrow> 5 | Some n \<Rightarrow> n)\<rparr>"

text \<open>The state of \<open>connect\<close> when the request has been built or has failed to be.\<close>

definition pre_connect :: "SSEClient \<Rightarrow> SSEClient" where
  "pre_connect st =
     (disconnect False st)
       \<lparr>abortController := Some (length (connections st)),
        connections := connections (disconnect False st) @ [new_connection (options st)]\<rparr>"

text \<open>The condition under which the \<open>catch\<close> block sets the timer.\<close>

definition retry_due :: "connection \<Rightarrow> nat \<Rightarrow> bool" where
  "retry_due conn attempts \<longleftrightarrow>
     c_autoReconnect conn \<and>
     (c_maxReconnectAttempts conn = 0 \<or> int attempts < c_maxReconnectAttempts conn)"

text \<open>
  What holds of every state a client can reach: the connection of the field
  \<open>abortController\<close> is the only one not aborted, and the only pending timer, if any,
  is the one of the field \<open>reconnectTimeout\<close>, set by a connection that has returned.
\<close>

definition inv :: "SSEClient \<Rightarrow> bool" where
  "inv st \<longleftrightarrow>
     (case abortController st of
        None \<Rightarrow> (\<forall>i<length (connections st). aborted (connections st ! i))
      | Some c \<Rightarrow> c < length (connections st) \<and> \<not> aborted (connections st ! c) \<and>
                  (\<forall>i<length (connections st). i \<noteq> c \<longrightarrow> aborted (connections st ! i))) \<and>
     (timers st = [] \<or>
      (\<exists>t d. timers st = [(t, d)] \<and> reconnectTimeout st = Some t \<and> t < timer_count st \<and>
             (\<forall>c. abortController st = Some c \<longrightarrow> phase (connections st ! c) = Ended)))"

text \<open>After \<open>disconnect\<close>: every signal aborted, no timer pending.\<close>

definition quiet :: "SSEClient \<Rightarrow> bool" where
  "quiet st \<longleftrightarrow> (\<forall>i<length (connections st). aborted (connections st ! i)) \<and> timers st = []"

subsection \<open>Whose effect\<close>

text \<open>
  The connection whose \<open>performConnect\<close> runs the handler of an event: the one the
  runtime event names, and the new connection for a call of \<open>connect\<close>, by the
  caller or by a timer. The effects of a run, each paired with that connection.
\<close>

fun source :: "SSEClient \<Rightarrow> event \<Rightarrow> nat option" where
  "source st Connect = Some (length (connections st))"
| "source st (Disconnect resetAttempts) = None"
| "source st (UpdateOptions newOptions) = None"
| "source st (TimerFires t) = Some (length (connections st))"
| "source st (FetchResolves c r) = Some c"
| "source st (Rejects c msg) = Some c"
| "source st (ReadChunk c chunk) = Some c"
| "source st (ReadDone c) = Some c"

fun run_by :: "json_parse \<Rightarrow> json_stringify \<Rightarrow> event list \<Rightarrow> SSEClient \<Rightarrow> (nat option \<times> effect) list" where
  "run_by P S [] st = []"
| "run_by P S (e # es) st =
     map (Pair (source st e)) (snd (step P S e st)) @ run_by P S es (fst (step P S e st))"

text \<open>The first \<open>n\<close> connections have been torn down: their signals are aborted.\<close>

definition torn :: "nat \<Rightarrow> SSEClient \<Rightarrow> bool" where
  "torn n st \<longleftrightarrow> n \<le> length (connections st) \<and> (\<forall>i<n. aborted (connections st ! i))"

text \<open>The callbacks of the data path.\<close>

definition data_callback :: "effect \<Rightarrow> bool" where
  "data_callback x \<longleftrightarrow> x = OnOpen \<or> x = OnClose \<or> (\<exists>m. x = OnMessage m)"

subsection \<open>Consecutive failures\<close>

text \<open>
  The connection of the field \<open>abortController\<close> fails with an error; the pending
  timer fires; \<open>n\<close> failures in a row, every retry that was set firing before the
  next failure.
\<close>

definition current_rejects :: "json_parse \<Rightarrow> json_stringify \<Rightarrow> string \<Rightarrow> SSEClient \<Rightarrow> SSEClient" where
  "current_rejects P S msg st =
     (case abortController st of None \<Rightarrow> st | Some c \<Rightarrow> fst (step P S (Rejects c msg) st))"

definition retry_fires :: "json_parse \<Rightarrow> json_stringify \<Rightarrow> SSEClient \<Rightarrow> SSEClient" where
  "retry_fires P S st =
     (case timers st of [] \<Rightarrow> st | (t, d) # ts \<Rightarrow> fst (step P S (TimerFires t) st))"

fun failures :: "json_parse \<Rightarrow> json_stringify \<Rightarrow> string \<Rightarrow> nat \<Rightarrow> SSEClient \<Rightarrow> SSEClient" where
  "failures P S msg 0 st = st"
| "failures P S msg (Suc n) st = current_rejects P S msg (retry_fires P S (failures P S msg n st))"

text \<open>The options ask for retries with ceiling \<open>N\<close>, and the request can be built.\<close>

definition retry_options :: "json_stringify \<Rightarrow> nat \<Rightarrow> SSEClient \<Rightarrow> bool" where
  "retry_options S N st \<longleftrightarrow>
     autoReconnect (options st) = Some True \<and>
     maxReconnectAttempts (options st) = Some (int N) \<and>
     (\<forall>sig. \<exists>r. buildRequest S (options st) sig = Inr r)"

text \<open>Before a failure (\<open>poised\<close>) and after one that set the timer (\<open>armed\<close>).\<close>

definition poised :: "json_stringify \<Rightarrow> nat \<Rightarrow> nat \<Rightarrow> SSEClient \<Rightarrow> bool" where
  "poised S N k st \<longleftrightarrow>
     inv st \<and> retry_options S N st \<and> reconnectAttempts st = k \<and>
     (\<exists>c. abortController st = Some c \<and> phase (connections st ! c) \<noteq> Ended \<and>
          c_autoReconnect (connections st ! c) \<and>
          c_maxReconnectAttempts (connections st ! c) = int N)"

definition armed :: "json_stringify \<Rightarrow> nat \<Rightarrow> nat \<Rightarrow> SSEClient \<Rightarrow> bool" where
  "armed S N k st \<longleftrightarrow>
     inv st \<and> retry_options S N st \<and> reconnectAttempts st = k \<and> (\<exists>t d. timers st = [(t, d)])"

subsection \<open>The request of a connection\<close>

text \<open>
  The caller's headers; whether a body is sent (\<open>method === "POST" && body\<close>); and a
  header of the request that an effect issues.
\<close>

definition caller_headers :: "SSEClientOptions \<Rightarrow> string \<rightharpoonup> string" where
  "caller_headers opts = (case headers opts of None \<Rightarrow> Map.empty | Some h \<Rightarrow> h)"

definition sends_body :: "SSEClientOptions \<Rightarrow> bool" where
  "sends_body opts \<longleftrightarrow> opt_method opts = Some POST \<and> body_truthy (body opts)"

fun request_header :: "string \<Rightarrow> effect \<Rightarrow> string option" where
  "request_header k (Fetch u r) = req_headers r k"
| "request_header k OnOpen = None"
| "request_header k (OnMessage m) = None"
| "request_header k (OnError e) = None"
| "request_header k OnClose = None"

fun request_body :: "effect \<Rightarrow> string option" where
  "request_body (Fetch u r) = req_body r"
| "request_body OnOpen = None"
| "request_body (OnMessage m) = None"
| "request_body (OnError e) = None"
| "request_body OnClose = None"

subsection \<open>Streams of lines\<close>

text \<open>The text of a list of lines, each line ended by CR LF, or by LF alone.\<close>

definition crlf_stream :: "string list \<Rightarrow> string" where
  "crlf_stream ls = concat (map (\<lambda>l. l @ [CR, LF]) ls)"

definition lf_stream :: "string list \<Rightarrow> string" where
  "lf_stream ls = concat (map (\<lambda>l. l @ [LF]) ls)"

section \<open>Data for the examples\<close>

text \<open>
  Two JSON texts, written with the double quote as \<open>CHR 0x22\<close>:
  \<open>{"type":"x","timestamp":"T"}\<close> and \<open>{"type":"","timestamp":""}\<close>.
\<close>

definition dq :: "string \<Rightarrow> string" where
  "dq s = CHR 0x22 # s @ [CHR 0x22]"

definition text_typed :: string where
  "text_typed = ''{'' @ dq ''type'' @ '':'' @ dq ''x'' @ '','' @ dq ''timestamp'' @ '':'' @ dq ''T'' @ ''}''"

definition text_empty_fields :: string where
  "text_empty_fields = ''{'' @ dq ''type'' @ '':'' @ dq [] @ '','' @ dq ''timestamp'' @ '':'' @ dq [] @ ''}''"

text \<open>
  An instance of the parameter \<open>JSON.parse\<close> for the examples: the value of each of
  the two texts above, and a syntax error on the other texts the examples use
  (\<open>A\<close>, \<open>A\nB\<close>, \<open>a\<close>, \<open>not-json\<close> and the like), none of which is JSON.
\<close>

definition sample_parse :: json_parse where
  "sample_parse s =
     (if s = text_typed then Some (JObj [(''type'', JStr ''x''), (''timestamp'', JStr ''T'')])
      else if s = text_empty_fields then Some (JObj [(''type'', JStr []), (''timestamp'', JStr [])])
      else None)"

text \<open>
  An instance of the parameter \<open>JSON.stringify\<close> for the examples: the text
  \<open>{"q":"hi"}\<close> of the one record they encode; every other argument stands for a
  record on which the call throws.
\<close>

definition sample_stringify :: json_stringify where
  "sample_stringify r =
     (if r = JObj [(''q'', JStr ''hi'')] then Inr (''{'' @ dq ''q'' @ '':'' @ dq ''hi'' @ ''}'')
      else Inl ''Converting circular structure to JSON'')"

text \<open>Options that ask for two retries a second apart, and a trace of such a client.\<close>

definition retry_sample :: SSEClientOptions where
  "retry_sample =
     \<lparr>url = Some ''/stream'', opt_method = None, body = None, headers = None,
      autoReconnect = Some True, reconnectDelay = Some 1000, maxReconnectAttempts = Some 2\<rparr>"

definition good_response :: response where
  "good_response = \<lparr>ok = True, status = 200, statusText = ''OK'', has_body = True\<rparr>"

definition bad_response :: response where
  "bad_response = \<lparr>ok = False, status = 503, statusText = ''Service Unavailable'', has_body = True\<rparr>"

text \<open>
  A \<open>POST\<close> of a record, of a string, and of a record that cannot be encoded (one
  that contains itself, its cycle cut here at \<open>null\<close>).
\<close>

definition post_record :: SSEClientOptions where
  "post_record =
     \<lparr>url = Some ''/chat'', opt_method = Some POST, body = Some (BodyRecord (JObj [(''q'', JStr ''hi'')])),
      headers = Some [''Authorization'' \<mapsto> ''Bearer t''],
      autoReconnect = None, reconnectDelay = None, maxReconnectAttempts = None\<rparr>"

definition post_string :: SSEClientOptions where
  "post_string =
     \<lparr>url = Some ''/chat'', opt_method = Some POST, body = Some (BodyString ''q=hi''),
      headers = None,
      autoReconnect = None, reconnectDelay = None, maxReconnectAttempts = None\<rparr>"

definition post_unencodable :: SSEClientOptions where
  "post_unencodable =
     \<lparr>url = Some ''/chat'', opt_method = Some POST, body = Some (BodyRecord (JObj [(''self'', JNull)])),
      headers = None,
      autoReconnect = Some True, reconnectDelay = None, maxReconnectAttempts = None\<rparr>"

text \<open>A caller that supplies its own \<open>Accept\<close> header.\<close>

definition accept_override :: SSEClientOptions where
  "accept_override =
     \<lparr>url = Some ''/stream'', opt_method = None, body = None,
      headers = Some [''Accept'' \<mapsto> ''application/json''],
      autoReconnect = None, reconnectDelay = None, maxReconnectAttempts = None\<rparr>"

text \<open>The request the client issues for \<open>post_record\<close>.\<close>

definition post_record_request :: RequestInit where
  "post_record_request =
     \<lparr>req_method = POST,
      req_headers = ([''Accept'' \<mapsto> ''text/event-stream'', ''Cache-Control'' \<mapsto> ''no-cache'']
                      ++ [''Authorization'' \<mapsto> ''Bearer t''])(''Content-Type'' \<mapsto> ''application/json''),
      req_body = Some (''{'' @ dq ''q'' @ '':'' @ dq ''hi'' @ ''}''),
      req_signal = 0\<rparr>"

text \<open>
  States of a client with the options \<open>retry_sample\<close>: after \<open>connect\<close>; after the
  connection then failed; after the retry timer then fired; and after a \<open>connect\<close>
  whose request was answered with a success status and a body.
\<close>

definition connected_sample :: SSEClient where
  "connected_sample = fst (run sample_parse sample_stringify [Connect] (new_client retry_sample))"

definition failed_once_sample :: SSEClient where
  "failed_once_sample =
     fst (run sample_parse sample_stringify [Connect, Rejects 0 ''network error'']
            (new_client retry_sample))"

definition retrying_sample :: SSEClient where
  "retrying_sample =
     fst (run sample_parse sample_stringify [Connect, Rejects 0 ''network error'', TimerFires 1]
            (new_client retry_sample))"

definition open_sample :: SSEClient where
  "open_sample =
     fst (run sample_parse sample_stringify [Connect, FetchResolves 0 good_response]
            (new_client retry_sample))"

section \<open>Properties of the decoder\<close>

lemma split_nl_nonempty: "split_nl s \<noteq> []"
  by (induction s) (auto split: list.splits)

lemma split_nl_no_LF: "LF \<notin> set s \<Longrightarrow> split_nl s = [s]"
  by (induction s) auto

lemma last_split_nl_no_LF: "LF \<notin> set (last (split_nl s))"
  by (induction s) (auto split: list.splits simp: split_nl_nonempty)

lemma split_nl_append:
  "split_nl (a @ b) =
     butlast (split_nl a) @ (last (split_nl a) @ hd (split_nl b)) # tl (split_nl b)"
proof (induction a)
  case Nil
  then show ?case using split_nl_nonempty [of b] by (cases "split_nl b") auto
next
  case (Cons c a)
  show ?case
  proof (cases "split_nl a")
    case Nil
    then show ?thesis using split_nl_nonempty by blast
  next
    case (Cons l ls)
    then show ?thesis using Cons.IH
      by (cases ls) (auto split: list.splits)
  qed
qed

lemma split_nl_carry:
  "split_nl (a @ b) = butlast (split_nl a) @ split_nl (last (split_nl a) @ b)"
proof -
  have "split_nl (last (split_nl a) @ b) =
        (last (split_nl a) @ hd (split_nl b)) # tl (split_nl b)"
    using split_nl_append [of "last (split_nl a)" b]
    by (simp add: split_nl_no_LF last_split_nl_no_LF)
  then show ?thesis by (simp add: split_nl_append [of a b])
qed

lemma parseLines_append:
  "parseLines P (xs @ ys) b =
     (let (b1, ms1) = parseLines P xs b; (b2, ms2) = parseLines P ys b1 in (b2, ms1 @ ms2))"
  by (induction xs arbitrary: b) (auto split: prod.splits)

lemma feed_partial: "partial (fst (feed P chunk d)) = last (split_nl (partial d @ chunk))"
  by (auto simp: feed_def pop_def split_nl_nonempty split: prod.splits)

lemma feed_eq:
  "feed P chunk d =
     (\<lparr>partial = last (split_nl (partial d @ chunk)),
       buffer = fst (parseLines P (butlast (split_nl (partial d @ chunk))) (buffer d))\<rparr>,
      snd (parseLines P (butlast (split_nl (partial d @ chunk))) (buffer d)))"
  by (auto simp: feed_def pop_def split_nl_nonempty split: prod.splits)

lemma feed_feed:
  "(let (d1, ms1) = feed P c1 d; (d2, ms2) = feed P c2 d1 in (d2, ms1 @ ms2)) = feed P (c1 @ c2) d"
proof -
  let ?s = "split_nl (partial d @ c1)"
  have sp: "split_nl (partial d @ c1 @ c2) = butlast ?s @ split_nl (last ?s @ c2)"
    using split_nl_carry [of "partial d @ c1" c2] by simp
  have ne: "split_nl (last ?s @ c2) \<noteq> []" by (rule split_nl_nonempty)
  show ?thesis
    by (simp add: feed_eq sp butlast_append ne parseLines_append split: prod.splits)
qed

lemma feed_nil: "LF \<notin> set (partial d) \<Longrightarrow> feed P [] d = (d, [])"
  by (simp add: feed_eq split_nl_no_LF)

lemma feed_partial_no_LF: "LF \<notin> set (partial (fst (feed P chunk d)))"
  by (simp add: feed_partial last_split_nl_no_LF)

lemma feed_all_concat:
  "LF \<notin> set (partial d) \<Longrightarrow> feed_all P chunks d = feed P (concat chunks) d"
proof (induction chunks arbitrary: d)
  case Nil
  then show ?case by (simp add: feed_nil)
next
  case (Cons c cs)
  obtain d1 ms1 where f: "feed P c d = (d1, ms1)" by (cases "feed P c d")
  have "LF \<notin> set (partial d1)" using feed_partial_no_LF [of P c d] f by simp
  then have "feed_all P cs d1 = feed P (concat cs) d1" by (rule Cons.IH)
  then show ?case using feed_feed [of P c d "concat cs"] f by simp
qed

lemma feed_all_initial:
  "feed_all P chunks initial_decoder = feed P (concat chunks) initial_decoder"
  by (rule feed_all_concat) (simp add: initial_decoder_def)

subsection \<open>Chunk boundaries\<close>

text \<open>
  C1. However a text is cut into chunks, the read loop, carrying the unterminated
  last segment from one chunk to the next, delivers the same messages in the same
  order as it does for the whole text given as one chunk; the decoder is also left
  in the same state. (A time stamp made at dispatch is the same constructor on both
  sides: the clock is not part of the model.)
\<close>

theorem chunk_boundary_invariance:
  "concat chunks = whole \<Longrightarrow>
     decode P chunks = decode P [whole] \<and>
     fst (feed_all P chunks initial_decoder) = fst (feed_all P [whole] initial_decoder)"
  using feed_all_initial [of P chunks] feed_all_initial [of P "[whole]"]
  by (simp add: decode_def)

lemmas decoder_eval =
  decode_def feed_def pop_def initial_decoder_def empty_buffer_def parseLine_def
  normalized_def startsWith_def dispatchMessage_def parsedData_def sample_parse_def
  text_typed_def text_empty_fields_def dq_def

theorem chunk_boundary_invariance_witness:
  "concat [''data: A'' @ [CR], LF # ''da'', ''ta: B'' @ [LF, LF]]
     = ''data: A'' @ [CR, LF] @ ''data: B'' @ [LF, LF] \<and>
   decode sample_parse [''data: A'' @ [CR], LF # ''da'', ''ta: B'' @ [LF, LF]]
     = decode sample_parse [''data: A'' @ [CR, LF] @ ''data: B'' @ [LF, LF]] \<and>
   decode sample_parse [''data: A'' @ [CR, LF] @ ''data: B'' @ [LF, LF]]
     = [\<lparr>msg_event = ''message'', msg_type = JStr ''message'',
         msg_data = JStr (''A'' @ [LF] @ ''B''), msg_timestamp = Generated\<rparr>]"
proof -
  have c: "concat [''data: A'' @ [CR], LF # ''da'', ''ta: B'' @ [LF, LF]]
     = ''data: A'' @ [CR, LF] @ ''data: B'' @ [LF, LF]" by simp
  have v: "decode sample_parse [''data: A'' @ [CR, LF] @ ''data: B'' @ [LF, LF]]
     = [\<lparr>msg_event = ''message'', msg_type = JStr ''message'',
         msg_data = JStr (''A'' @ [LF] @ ''B''), msg_timestamp = Generated\<rparr>]"
    by (simp add: decoder_eval)
  show ?thesis using chunk_boundary_invariance [OF c, of sample_parse] c v by simp
qed

subsection \<open>Blank lines and finalization\<close>

lemma split_nl_line: "LF \<notin> set l \<Longrightarrow> split_nl (l @ LF # rest) = l # split_nl rest"
  by (induction l) auto

lemma split_nl_join_nl:
  "ds \<noteq> [] \<Longrightarrow> \<forall>d\<in>set ds. LF \<notin> set d \<Longrightarrow> split_nl (join_nl ds) = ds"
proof (induction ds rule: join_nl.induct)
  case 1
  then show ?case by simp
next
  case (2 x)
  then show ?case by (simp add: split_nl_no_LF)
next
  case (3 x y ys)
  then show ?case using split_nl_line [of x "join_nl (y # ys)"] by simp
qed

lemma dispatchMessage_reset: "snd (dispatchMessage P buf) = empty_buffer"
  by (simp add: dispatchMessage_def empty_buffer_def Let_def)

lemma dispatchMessage_data:
  "msg_data (fst (dispatchMessage P buf)) = parsedData P (join_nl (buf_data buf))"
  by (simp add: dispatchMessage_def Let_def)

text \<open>
  C6. On a line that is empty once normalized, a message is dispatched and the buffer
  reset exactly when the buffer holds at least one data line; otherwise nothing is
  dispatched and the buffer stays as it is. The payload of the message is made from
  the data lines joined with line feeds in their order (it is that very string when
  it does not parse); two lines \<open>A\<close>, \<open>B\<close> join to \<open>A\nB\<close>, and splitting the
  join at the line feeds gives the data lines back in order.
\<close>

theorem blank_line_finalizes:
  "normalized line = [] \<Longrightarrow>
     parseLine P line buf =
       (if buf_data buf \<noteq> []
        then (empty_buffer, [fst (dispatchMessage P buf)])
        else (buf, [])) \<and>
     (snd (parseLine P line buf) \<noteq> [] \<longleftrightarrow> buf_data buf \<noteq> []) \<and>
     msg_data (fst (dispatchMessage P buf)) = parsedData P (join_nl (buf_data buf)) \<and>
     (P (join_nl (buf_data buf)) = None \<longrightarrow>
        msg_data (fst (dispatchMessage P buf)) = JStr (join_nl (buf_data buf))) \<and>
     join_nl [A, B] = A @ [LF] @ B \<and>
     (buf_data buf \<noteq> [] \<and> (\<forall>d\<in>set (buf_data buf). LF \<notin> set d) \<longrightarrow>
        split_nl (join_nl (buf_data buf)) = buf_data buf)"
  using dispatchMessage_reset [of P buf]
  by (auto simp: parseLine_def dispatchMessage_data parsedData_def split_nl_join_nl
           split: prod.splits)

theorem blank_line_finalizes_witness:
  "normalized [CR] = [] \<and>
   parseLine sample_parse [CR] \<lparr>buf_event = ''tick'', buf_data = [''A'', ''B''], buf_id = None\<rparr>
     = (empty_buffer,
        [\<lparr>msg_event = ''tick'', msg_type = JStr ''message'',
          msg_data = JStr (''A'' @ [LF] @ ''B''), msg_timestamp = Generated\<rparr>]) \<and>
   parseLine sample_parse [] \<lparr>buf_event = ''tick'', buf_data = [], buf_id = None\<rparr>
     = (\<lparr>buf_event = ''tick'', buf_data = [], buf_id = None\<rparr>, []) \<and>
   split_nl (join_nl [''A'', ''B'']) = [''A'', ''B'']"
proof -
  have n1: "normalized [CR] = []" by (simp add: normalized_def)
  have n2: "normalized [] = []" by (simp add: normalized_def)
  have d: "fst (dispatchMessage sample_parse
                 \<lparr>buf_event = ''tick'', buf_data = [''A'', ''B''], buf_id = None\<rparr>)
           = \<lparr>msg_event = ''tick'', msg_type = JStr ''message'',
              msg_data = JStr (''A'' @ [LF] @ ''B''), msg_timestamp = Generated\<rparr>"
    by (simp add: decoder_eval)
  show ?thesis
    using blank_line_finalizes [OF n1, of sample_parse
            "\<lparr>buf_event = ''tick'', buf_data = [''A'', ''B''], buf_id = None\<rparr>" "''A''" "''B''"]
          blank_line_finalizes [OF n2, of sample_parse
            "\<lparr>buf_event = ''tick'', buf_data = [], buf_id = None\<rparr>" "''A''" "''B''"]
          n1 d
    by simp
qed

subsection \<open>Field lines\<close>

lemma indexOf_takeWhile:
  "indexOf s c = (if c \<in> set s then Some (length (takeWhile (\<lambda>x. x \<noteq> c) s)) else None)"
  by (induction s) auto

lemma take_first: "take (length (takeWhile Q s)) s = takeWhile Q s"
  by (induction s) auto

lemma drop_first: "drop (Suc (length (takeWhile Q s))) s = tl (dropWhile Q s)"
  by (induction s) auto

lemma dispatchMessage_id:
  "fst (dispatchMessage P (buf\<lparr>buf_id := i\<rparr>)) = fst (dispatchMessage P buf)"
  by (simp add: dispatchMessage_def Let_def)

text \<open>
  C8. For a line that is not empty once normalized: a line that begins with a colon
  and a line without a colon change nothing; any other line is cut at its first
  colon into the field name before it and the value after it, the value losing one
  leading space if it has one. \<open>event\<close> replaces the event name, \<open>data\<close> appends the
  value after the data lines already there, \<open>id\<close> is stored, every other name changes
  nothing; no line of this kind dispatches a message. The stored id has no influence
  on the message a later dispatch builds.
\<close>

theorem field_line:
  "normalized line = n \<Longrightarrow> n \<noteq> [] \<Longrightarrow>
     (if hd n = CHR '':'' \<or> CHR '':'' \<notin> set n
      then parseLine P line buf = (buf, [])
      else (let field = takeWhile (\<lambda>x. x \<noteq> CHR '':'') n;
                rest = tl (dropWhile (\<lambda>x. x \<noteq> CHR '':'') n);
                value = (if rest \<noteq> [] \<and> hd rest = CHR '' '' then tl rest else rest)
            in parseLine P line buf =
                 (if field = ''event'' then (buf\<lparr>buf_event := value\<rparr>, [])
                  else if field = ''data'' then (buf\<lparr>buf_data := buf_data buf @ [value]\<rparr>, [])
                  else if field = ''id'' then (buf\<lparr>buf_id := Some value\<rparr>, [])
                  else (buf, [])))) \<and>
     fst (dispatchMessage P (buf\<lparr>buf_id := i\<rparr>)) = fst (dispatchMessage P buf)"
proof -
  assume n: "normalized line = n" and ne: "n \<noteq> []"
  have sw: "startsWith n (CHR '':'') \<longleftrightarrow> hd n = CHR '':''"
    using ne by (cases n) (auto simp: startsWith_def)
  have sp: "\<And>r. startsWith r (CHR '' '') \<longleftrightarrow> r \<noteq> [] \<and> hd r = CHR '' ''"
    by (auto simp: startsWith_def split: list.splits)
  have d1: "\<And>r::string. drop (Suc 0) r = tl r" by (simp add: drop_Suc)
  show ?thesis
    using n ne
    by (simp add: parseLine_def indexOf_takeWhile take_first drop_first sw sp d1
                  dispatchMessage_id Let_def)
qed

theorem field_line_witness:
  "normalized (''data:  x:y'' @ [CR]) = ''data:  x:y'' \<and> ''data:  x:y'' \<noteq> [] \<and>
   parseLine sample_parse (''data:  x:y'' @ [CR]) \<lparr>buf_event = ''message'', buf_data = [''A''], buf_id = None\<rparr>
     = (\<lparr>buf_event = ''message'', buf_data = [''A'', '' x:y''], buf_id = None\<rparr>, [])"
proof -
  have n: "normalized (''data:  x:y'' @ [CR]) = ''data:  x:y''" by (simp add: normalized_def)
  have ne: "''data:  x:y'' \<noteq> []" by simp
  show ?thesis
    using field_line [OF n ne, of sample_parse
            "\<lparr>buf_event = ''message'', buf_data = [''A''], buf_id = None\<rparr>" None] n
    by simp
qed

subsection \<open>The payload of a finalized frame\<close>

text \<open>
  C7, as the code has it. Building the message is a total function of the buffer
  (a failed parse is a branch, not an exception). When the joined data does not
  parse, the payload is the joined string, the kind is \<open>message\<close> and the time stamp
  is generated. When it parses to an object, the payload is that object; the kind is
  the object's \<open>type\<close> field if the field is there and truthy, and \<open>message\<close> if it
  is missing or falsy; the time stamp is the object's \<open>timestamp\<close> field, unchanged,
  if the field is there and truthy, and generated if it is missing or falsy. When it
  parses to anything else (null, an array, a string, a number, a boolean) the kind is
  \<open>message\<close> and the time stamp is generated.
\<close>

theorem finalize_payload:
  "(P (join_nl (buf_data buf)) = None \<longrightarrow>
      msg_data (fst (dispatchMessage P buf)) = JStr (join_nl (buf_data buf)) \<and>
      msg_type (fst (dispatchMessage P buf)) = JStr ''message'' \<and>
      msg_timestamp (fst (dispatchMessage P buf)) = Generated) \<and>
   (P (join_nl (buf_data buf)) = Some (JObj kvs) \<longrightarrow>
      msg_data (fst (dispatchMessage P buf)) = JObj kvs \<and>
      msg_type (fst (dispatchMessage P buf)) =
        (case map_of kvs ''type'' of
           Some t \<Rightarrow> if truthy (Some t) then t else JStr ''message''
         | None \<Rightarrow> JStr ''message'') \<and>
      msg_timestamp (fst (dispatchMessage P buf)) =
        (case map_of kvs ''timestamp'' of
           Some t \<Rightarrow> if truthy (Some t) then FromPayload t else Generated
         | None \<Rightarrow> Generated)) \<and>
   (P (join_nl (buf_data buf)) = Some v \<and> (\<forall>xs. v \<noteq> JObj xs) \<longrightarrow>
      msg_data (fst (dispatchMessage P buf)) = v \<and>
      msg_type (fst (dispatchMessage P buf)) = JStr ''message'' \<and>
      msg_timestamp (fst (dispatchMessage P buf)) = Generated)"
proof -
  have 1: "P (join_nl (buf_data buf)) = None \<Longrightarrow>
      msg_data (fst (dispatchMessage P buf)) = JStr (join_nl (buf_data buf)) \<and>
      msg_type (fst (dispatchMessage P buf)) = JStr ''message'' \<and>
      msg_timestamp (fst (dispatchMessage P buf)) = Generated"
    by (simp add: dispatchMessage_def parsedData_def Let_def)
  have 2: "P (join_nl (buf_data buf)) = Some (JObj kvs) \<Longrightarrow>
      msg_data (fst (dispatchMessage P buf)) = JObj kvs \<and>
      msg_type (fst (dispatchMessage P buf)) =
        (case map_of kvs ''type'' of
           Some t \<Rightarrow> if truthy (Some t) then t else JStr ''message''
         | None \<Rightarrow> JStr ''message'') \<and>
      msg_timestamp (fst (dispatchMessage P buf)) =
        (case map_of kvs ''timestamp'' of
           Some t \<Rightarrow> if truthy (Some t) then FromPayload t else Generated
         | None \<Rightarrow> Generated)"
    by (simp add: dispatchMessage_def parsedData_def Let_def split: option.splits)
  have 3: "P (join_nl (buf_data buf)) = Some v \<Longrightarrow> \<forall>xs. v \<noteq> JObj xs \<Longrightarrow>
      msg_data (fst (dispatchMessage P buf)) = v \<and>
      msg_type (fst (dispatchMessage P buf)) = JStr ''message'' \<and>
      msg_timestamp (fst (dispatchMessage P buf)) = Generated"
    by (cases v) (simp_all add: dispatchMessage_def parsedData_def Let_def)
  show ?thesis using 1 2 3 by blast
qed

theorem finalize_payload_witness:
  "sample_parse (join_nl [text_typed])
     = Some (JObj [(''type'', JStr ''x''), (''timestamp'', JStr ''T'')]) \<and>
   msg_type (fst (dispatchMessage sample_parse
       \<lparr>buf_event = ''message'', buf_data = [text_typed], buf_id = None\<rparr>)) = JStr ''x'' \<and>
   msg_timestamp (fst (dispatchMessage sample_parse
       \<lparr>buf_event = ''message'', buf_data = [text_typed], buf_id = None\<rparr>)) = FromPayload (JStr ''T'') \<and>
   sample_parse (join_nl [''not-json'']) = None \<and>
   msg_data (fst (dispatchMessage sample_parse
       \<lparr>buf_event = ''message'', buf_data = [''not-json''], buf_id = None\<rparr>)) = JStr ''not-json'' \<and>
   msg_type (fst (dispatchMessage sample_parse
       \<lparr>buf_event = ''message'', buf_data = [''not-json''], buf_id = None\<rparr>)) = JStr ''message'' \<and>
   msg_timestamp (fst (dispatchMessage sample_parse
       \<lparr>buf_event = ''message'', buf_data = [''not-json''], buf_id = None\<rparr>)) = Generated"
proof -
  have p1: "sample_parse (join_nl [text_typed])
     = Some (JObj [(''type'', JStr ''x''), (''timestamp'', JStr ''T'')])"
    by (simp add: sample_parse_def)
  have p2: "sample_parse (join_nl [''not-json'']) = None"
    by (simp add: sample_parse_def text_typed_def text_empty_fields_def dq_def)
  show ?thesis
    using finalize_payload [of sample_parse
            "\<lparr>buf_event = ''message'', buf_data = [text_typed], buf_id = None\<rparr>"
            "[(''type'', JStr ''x''), (''timestamp'', JStr ''T'')]" JNull]
          finalize_payload [of sample_parse
            "\<lparr>buf_event = ''message'', buf_data = [''not-json''], buf_id = None\<rparr>" "[]" JNull]
          p1 p2
    by simp
qed

text \<open>
  The claim as written fails on a payload whose \<open>type\<close> and \<open>timestamp\<close> fields are
  present and empty, \<open>data: {"type":"","timestamp":""}\<close>: the kind is \<open>message\<close>,
  not the field, and the time stamp is generated, not the field.
\<close>

theorem finalize_payload_counterexample:
  "sample_parse (join_nl [text_empty_fields])
     = Some (JObj [(''type'', JStr []), (''timestamp'', JStr [])]) \<and>
   msg_type (fst (dispatchMessage sample_parse
       \<lparr>buf_event = ''message'', buf_data = [text_empty_fields], buf_id = None\<rparr>)) = JStr ''message'' \<and>
   msg_type (fst (dispatchMessage sample_parse
       \<lparr>buf_event = ''message'', buf_data = [text_empty_fields], buf_id = None\<rparr>)) \<noteq> JStr [] \<and>
   msg_timestamp (fst (dispatchMessage sample_parse
       \<lparr>buf_event = ''message'', buf_data = [text_empty_fields], buf_id = None\<rparr>)) = Generated \<and>
   msg_timestamp (fst (dispatchMessage sample_parse
       \<lparr>buf_event = ''message'', buf_data = [text_empty_fields], buf_id = None\<rparr>)) \<noteq> FromPayload (JStr [])"
  by (simp add: dispatchMessage_def parsedData_def sample_parse_def text_typed_def
                text_empty_fields_def dq_def Let_def)

subsection \<open>Carriage returns\<close>

lemma normalized_snoc_CR: "normalized (l @ [CR]) = l"
  by (simp add: normalized_def)

lemma normalized_no_CR: "l = [] \<or> last l \<noteq> CR \<Longrightarrow> normalized l = l"
  by (auto simp: normalized_def)

lemma parseLine_CR:
  "l = [] \<or> last l \<noteq> CR \<Longrightarrow> parseLine P (l @ [CR]) b = parseLine P l b"
  by (simp only: parseLine_def normalized_snoc_CR normalized_no_CR)

lemma parseLines_CR:
  "\<forall>l\<in>set ls. l = [] \<or> last l \<noteq> CR \<Longrightarrow>
     parseLines P (map (\<lambda>l. l @ [CR]) ls) b = parseLines P ls b"
  by (induction ls arbitrary: b) (simp_all add: parseLine_CR)

lemma split_nl_lf_stream:
  "\<forall>l\<in>set ls. LF \<notin> set l \<Longrightarrow> split_nl (lf_stream ls) = ls @ [[]]"
  by (induction ls) (simp_all add: lf_stream_def split_nl_line)

lemma split_nl_crlf_stream:
  "\<forall>l\<in>set ls. LF \<notin> set l \<Longrightarrow> split_nl (crlf_stream ls) = map (\<lambda>l. l @ [CR]) ls @ [[]]"
proof (induction ls)
  case Nil
  then show ?case by (simp add: crlf_stream_def)
next
  case (Cons l ls)
  have "split_nl ((l @ [CR]) @ LF # crlf_stream ls) = (l @ [CR]) # split_nl (crlf_stream ls)"
    using Cons.prems by (intro split_nl_line) simp
  then show ?case using Cons by (simp add: crlf_stream_def)
qed

lemma decode_concat: "decode P chunks = snd (feed P (concat chunks) initial_decoder)"
  by (simp add: decode_def feed_all_initial)

text \<open>
  C10, as the code has it. One carriage return at the end of a line, and no more than
  one, is removed before the line is interpreted: a line followed by a carriage
  return is read as the line itself. Hence, for lines none of which itself ends in a
  carriage return, the stream that ends every line by CR LF and the stream that ends
  every line by LF deliver the same messages in the same order, however each stream
  is cut into chunks.
\<close>

theorem crlf_same_as_lf:
  "\<forall>l\<in>set ls. LF \<notin> set l \<and> (l = [] \<or> last l \<noteq> CR) \<Longrightarrow>
   concat chunks1 = crlf_stream ls \<Longrightarrow> concat chunks2 = lf_stream ls \<Longrightarrow>
     decode P chunks1 = decode P chunks2 \<and>
     normalized (line @ [CR]) = line \<and>
     (\<forall>l\<in>set ls. \<forall>b. parseLine P (l @ [CR]) b = parseLine P l b)"
proof -
  assume ls: "\<forall>l\<in>set ls. LF \<notin> set l \<and> (l = [] \<or> last l \<noteq> CR)"
     and c1: "concat chunks1 = crlf_stream ls" and c2: "concat chunks2 = lf_stream ls"
  have s1: "split_nl (crlf_stream ls) = map (\<lambda>l. l @ [CR]) ls @ [[]]"
    using ls by (intro split_nl_crlf_stream) simp
  have s2: "split_nl (lf_stream ls) = ls @ [[]]"
    using ls by (intro split_nl_lf_stream) simp
  have pl: "\<And>b. parseLines P (map (\<lambda>l. l @ [CR]) ls) b = parseLines P ls b"
    using ls by (intro parseLines_CR) simp
  have "feed P (crlf_stream ls) initial_decoder = feed P (lf_stream ls) initial_decoder"
    by (simp add: feed_eq initial_decoder_def s1 s2 pl)
  then have "decode P chunks1 = decode P chunks2"
    by (simp add: decode_concat c1 c2)
  moreover have "\<forall>l\<in>set ls. \<forall>b. parseLine P (l @ [CR]) b = parseLine P l b"
    using ls by (simp add: parseLine_CR)
  ultimately show ?thesis by (simp add: normalized_snoc_CR)
qed

theorem crlf_same_as_lf_witness:
  "concat [''event: tick'' @ [CR], LF # ''data: a'' @ [CR, LF, CR, LF]]
     = crlf_stream [''event: tick'', ''data: a'', []] \<and>
   concat [''event: tick'' @ LF # ''data: a'' @ [LF, LF]]
     = lf_stream [''event: tick'', ''data: a'', []] \<and>
   decode sample_parse [''event: tick'' @ [CR], LF # ''data: a'' @ [CR, LF, CR, LF]]
     = decode sample_parse [''event: tick'' @ LF # ''data: a'' @ [LF, LF]] \<and>
   decode sample_parse [''event: tick'' @ LF # ''data: a'' @ [LF, LF]]
     = [\<lparr>msg_event = ''tick'', msg_type = JStr ''message'',
         msg_data = JStr ''a'', msg_timestamp = Generated\<rparr>]"
proof -
  have h: "\<forall>l\<in>set [''event: tick'', ''data: a'', []]. LF \<notin> set l \<and> (l = [] \<or> last l \<noteq> CR)"
    by simp
  have c1: "concat [''event: tick'' @ [CR], LF # ''data: a'' @ [CR, LF, CR, LF]]
     = crlf_stream [''event: tick'', ''data: a'', []]"
    by (simp add: crlf_stream_def)
  have c2: "concat [''event: tick'' @ LF # ''data: a'' @ [LF, LF]]
     = lf_stream [''event: tick'', ''data: a'', []]"
    by (simp add: lf_stream_def)
  have v: "decode sample_parse [''event: tick'' @ LF # ''data: a'' @ [LF, LF]]
     = [\<lparr>msg_event = ''tick'', msg_type = JStr ''message'',
         msg_data = JStr ''a'', msg_timestamp = Generated\<rparr>]"
    by (simp add: decoder_eval)
  show ?thesis
    using crlf_same_as_lf [OF h c1 c2, of sample_parse] c1 c2 v by simp
qed

text \<open>
  The claim as written fails when a line itself ends in a carriage return: of the two
  lines \<open>data: a\r\<close> and the empty line, the CR LF stream delivers the payload
  \<open>a\r\<close> and the LF stream the payload \<open>a\<close>.
\<close>

theorem crlf_same_as_lf_counterexample:
  "decode sample_parse [crlf_stream [''data: a'' @ [CR], []]]
     = [\<lparr>msg_event = ''message'', msg_type = JStr ''message'',
         msg_data = JStr (''a'' @ [CR]), msg_timestamp = Generated\<rparr>] \<and>
   decode sample_parse [lf_stream [''data: a'' @ [CR], []]]
     = [\<lparr>msg_event = ''message'', msg_type = JStr ''message'',
         msg_data = JStr ''a'', msg_timestamp = Generated\<rparr>] \<and>
   decode sample_parse [crlf_stream [''data: a'' @ [CR], []]]
     \<noteq> decode sample_parse [lf_stream [''data: a'' @ [CR], []]]"
  by (simp add: decoder_eval crlf_stream_def lf_stream_def)


section \<open>Properties of the connection\<close>

subsection \<open>The sample states, evaluated\<close>

lemmas client_eval =
  new_client_def connect_def disconnect_def buildRequest_def catch_block_def set_phase_def
  abort_def clearTimeout_def fetch_resolves_def read_chunk_def read_done_def phase_of_def
  retry_sample_def good_response_def bad_response_def post_record_def post_string_def
  post_unencodable_def accept_override_def sample_stringify_def dq_def Let_def

lemma connected_sample_eq:
  "connected_sample =
     \<lparr>abortController = Some 0, reconnectTimeout = None, reconnectAttempts = 0,
      options = retry_sample,
      connections = [\<lparr>aborted = False, phase = Fetching, c_autoReconnect = True,
                      c_reconnectDelay = 1000, c_maxReconnectAttempts = 2\<rparr>],
      timers = [], timer_count = 1\<rparr>"
  by (simp add: connected_sample_def client_eval)

lemma failed_once_sample_eq:
  "failed_once_sample =
     \<lparr>abortController = Some 0, reconnectTimeout = Some 1, reconnectAttempts = 1,
      options = retry_sample,
      connections = [\<lparr>aborted = False, phase = Ended, c_autoReconnect = True,
                      c_reconnectDelay = 1000, c_maxReconnectAttempts = 2\<rparr>],
      timers = [(1, 1000)], timer_count = 2\<rparr>"
  by (simp add: failed_once_sample_def client_eval)

lemma retrying_sample_eq:
  "retrying_sample =
     \<lparr>abortController = Some 1, reconnectTimeout = None, reconnectAttempts = 1,
      options = retry_sample,
      connections = [\<lparr>aborted = True, phase = Ended, c_autoReconnect = True,
                      c_reconnectDelay = 1000, c_maxReconnectAttempts = 2\<rparr>,
                     \<lparr>aborted = False, phase = Fetching, c_autoReconnect = True,
                      c_reconnectDelay = 1000, c_maxReconnectAttempts = 2\<rparr>],
      timers = [], timer_count = 2\<rparr>"
  by (simp add: retrying_sample_def client_eval)

lemma open_sample_eq:
  "open_sample =
     \<lparr>abortController = Some 0, reconnectTimeout = None, reconnectAttempts = 0,
      options = retry_sample,
      connections = [\<lparr>aborted = False, phase = Reading initial_decoder, c_autoReconnect = True,
                      c_reconnectDelay = 1000, c_maxReconnectAttempts = 2\<rparr>],
      timers = [], timer_count = 1\<rparr>"
  by (simp add: open_sample_def client_eval)

subsection \<open>The invariant\<close>

lemma inv_new: "inv (new_client opts)"
  by (simp add: inv_def new_client_def)

lemma disconnect_fields [simp]:
  "abortController (disconnect r st) = None"
  "reconnectTimeout (disconnect r st) = None"
  "reconnectAttempts (disconnect r st) = (if r then 0 else reconnectAttempts st)"
  "options (disconnect r st) = options st"
  "timer_count (disconnect r st) = timer_count st"
  "connections (disconnect r st) =
     (case abortController st of None \<Rightarrow> connections st | Some c \<Rightarrow> abort c (connections st))"
  "timers (disconnect r st) =
     (case reconnectTimeout st of None \<Rightarrow> timers st | Some t \<Rightarrow> clearTimeout t (timers st))"
  by (simp_all add: disconnect_def Let_def split: option.splits)

lemma length_abort [simp]: "length (abort c cs) = length cs"
  by (simp add: abort_def)

lemma aborted_abort:
  "i < length cs \<Longrightarrow> aborted (abort c cs ! i) = (i = c \<or> aborted (cs ! i))"
  by (auto simp: abort_def nth_list_update)

lemma phase_abort [simp]: "i < length cs \<Longrightarrow> phase (abort c cs ! i) = phase (cs ! i)"
  by (auto simp: abort_def nth_list_update)

lemma disconnect_quiet:
  assumes "inv st"
  shows "\<forall>i<length (connections st). aborted (connections (disconnect r st) ! i)"
    and "timers (disconnect r st) = []"
  using assms by (auto simp: inv_def aborted_abort clearTimeout_def split: option.splits)

lemma inv_disconnect: "inv st \<Longrightarrow> inv (disconnect r st)"
  using disconnect_quiet [of st r]
  by (auto simp: inv_def  split: option.splits)

lemma set_phase_fields [simp]:
  "abortController (set_phase c p st) = abortController st"
  "reconnectTimeout (set_phase c p st) = reconnectTimeout st"
  "reconnectAttempts (set_phase c p st) = reconnectAttempts st"
  "options (set_phase c p st) = options st"
  "timer_count (set_phase c p st) = timer_count st"
  "timers (set_phase c p st) = timers st"
  "length (connections (set_phase c p st)) = length (connections st)"
  by (simp_all add: set_phase_def)

lemma set_phase_nth:
  "i < length (connections st) \<Longrightarrow>
     aborted (connections (set_phase c p st) ! i) = aborted (connections st ! i) \<and>
     phase (connections (set_phase c p st) ! i) = (if i = c then p else phase (connections st ! i)) \<and>
     c_autoReconnect (connections (set_phase c p st) ! i) = c_autoReconnect (connections st ! i) \<and>
     c_reconnectDelay (connections (set_phase c p st) ! i) = c_reconnectDelay (connections st ! i) \<and>
     c_maxReconnectAttempts (connections (set_phase c p st) ! i) = c_maxReconnectAttempts (connections st ! i)"
  by (auto simp: set_phase_def nth_list_update)

lemma set_phase_update [simp]:
  "set_phase c p (st\<lparr>reconnectAttempts := n\<rparr>) = (set_phase c p st)\<lparr>reconnectAttempts := n\<rparr>"
  by (simp add: set_phase_def)

lemma inv_set_phase_Ended: "inv st \<Longrightarrow> inv (set_phase c Ended st)"
  by (auto simp: inv_def set_phase_nth split: option.splits)

lemma inv_set_phase_live:
  "inv st \<Longrightarrow> c < length (connections st) \<Longrightarrow> phase (connections st ! c) \<noteq> Ended \<Longrightarrow>
     inv (set_phase c p st)"
  by (auto simp: inv_def set_phase_nth split: option.splits)

lemma inv_attempts [simp]: "inv (st\<lparr>reconnectAttempts := n\<rparr>) = inv st"
  by (simp add: inv_def cong: option.case_cong)

lemma catch_block_aborted:
  "aborted (connections st ! c) \<Longrightarrow> catch_block c err st = (set_phase c Ended st, [])"
  by (simp add: catch_block_def Let_def)

lemma catch_block_live:
  "\<not> aborted (connections st ! c) \<Longrightarrow>
     catch_block c err st =
       (if retry_due (connections st ! c) (reconnectAttempts st)
        then ((set_phase c Ended st)\<lparr>reconnectAttempts := reconnectAttempts st + 1,
                  reconnectTimeout := Some (timer_count st),
                  timers := timers st @ [(timer_count st, c_reconnectDelay (connections st ! c))],
                  timer_count := timer_count st + 1\<rparr>,
              [OnError err])
        else (set_phase c Ended st, [OnError err]))"
  by (simp add: catch_block_def Let_def retry_due_def)

lemma inv_catch_block:
  assumes "inv st" "c < length (connections st)" "phase (connections st ! c) \<noteq> Ended"
  shows "inv (fst (catch_block c err st))"
proof (cases "aborted (connections st ! c)")
  case True
  then show ?thesis using assms by (simp add: catch_block_aborted inv_set_phase_Ended)
next
  case False
  then have cur: "abortController st = Some c" and t: "timers st = []"
    using assms by (auto simp: inv_def split: option.splits)
  have "inv (set_phase c Ended st)" using assms by (simp add: inv_set_phase_Ended)
  then show ?thesis using False cur t assms(2)
    by (auto simp: catch_block_live inv_def set_phase_nth)
qed

lemma length_connections_disconnect [simp]:
  "length (connections (disconnect r st)) = length (connections st)"
  by (simp split: option.splits)

lemma connect_eq:
  "connect S st =
     (case buildRequest S (options st) (length (connections st)) of
        Inl err \<Rightarrow> catch_block (length (connections st)) err (pre_connect st)
      | Inr requestInit \<Rightarrow> (pre_connect st, [Fetch (url (options st)) requestInit]))"
  by (simp add: connect_def pre_connect_def new_connection_def Let_def del: disconnect_fields(6)
           cong: sum.case_cong)

lemma pre_connect_fields [simp]:
  "abortController (pre_connect st) = Some (length (connections st))"
  "reconnectTimeout (pre_connect st) = None"
  "reconnectAttempts (pre_connect st) = reconnectAttempts st"
  "options (pre_connect st) = options st"
  "timer_count (pre_connect st) = timer_count st"
  "length (connections (pre_connect st)) = Suc (length (connections st))"
  "connections (pre_connect st) ! length (connections st) = new_connection (options st)"
  by (simp_all add: pre_connect_def nth_append del: disconnect_fields(6))

lemma pre_connect_old:
  "inv st \<Longrightarrow> i < length (connections st) \<Longrightarrow> aborted (connections (pre_connect st) ! i)"
  using disconnect_quiet(1) [of st False]
  by (simp add: pre_connect_def nth_append del: disconnect_fields(6))

lemma pre_connect_timers: "inv st \<Longrightarrow> timers (pre_connect st) = []"
  using disconnect_quiet(2) [of st False]
  by (simp add: pre_connect_def del: disconnect_fields(7))

lemma new_connection_fields [simp]:
  "aborted (new_connection opts) = False"
  "phase (new_connection opts) = Fetching"
  by (simp_all add: new_connection_def)

lemma inv_pre_connect: "inv st \<Longrightarrow> inv (pre_connect st)"
  using pre_connect_old [of st] pre_connect_timers [of st]
  by (auto simp: inv_def less_Suc_eq)

lemma inv_connect: "inv st \<Longrightarrow> inv (fst (connect S st))"
  by (auto simp: connect_eq inv_pre_connect inv_catch_block split: sum.splits)

lemma phase_of_live:
  "phase_of st c \<noteq> Ended \<Longrightarrow> c < length (connections st) \<and> phase (connections st ! c) = phase_of st c"
  by (auto simp: phase_of_def split: if_splits)

lemma inv_clear_timer: "inv st \<Longrightarrow> inv (st\<lparr>timers := clearTimeout t (timers st)\<rparr>)"
  by (auto simp: inv_def clearTimeout_def split: option.splits if_splits)

lemma inv_updateOptions: "inv (updateOptions u st) = inv st"
  by (simp add: inv_def updateOptions_def cong: option.case_cong)

lemma inv_step:
  assumes i: "inv st"
  shows "inv (fst (step P S e st))"
proof (cases e)
  case Connect
  then show ?thesis using i by (simp add: inv_connect)
next
  case (Disconnect r)
  then show ?thesis using i by (simp add: inv_disconnect)
next
  case (UpdateOptions u)
  then show ?thesis using i by (simp add: inv_updateOptions)
next
  case (TimerFires t)
  then show ?thesis using i by (simp add: inv_connect inv_clear_timer)
next
  case (FetchResolves c r)
  show ?thesis
  proof (cases "phase_of st c = Fetching")
    case True
    then have "c < length (connections st) \<and> phase (connections st ! c) \<noteq> Ended"
      using phase_of_live [of st c] by simp
    then show ?thesis using i True FetchResolves
      by (simp add: fetch_resolves_def inv_catch_block inv_set_phase_live)
  next
    case False
    then show ?thesis using i FetchResolves by (simp split: phase.splits)
  qed
next
  case (Rejects c msg)
  show ?thesis
  proof (cases "phase_of st c = Ended")
    case True
    then show ?thesis using i Rejects by simp
  next
    case False
    then have "c < length (connections st) \<and> phase (connections st ! c) \<noteq> Ended"
      using phase_of_live [of st c] by simp
    then show ?thesis using i False Rejects
      by (simp add: inv_catch_block split: phase.splits)
  qed
next
  case (ReadChunk c chunk)
  show ?thesis
  proof (cases "phase_of st c")
    case (Reading d)
    then have "c < length (connections st) \<and> phase (connections st ! c) \<noteq> Ended"
      using phase_of_live [of st c] by simp
    then show ?thesis using i Reading ReadChunk
      by (simp add: read_chunk_def inv_set_phase_live split: prod.splits)
  qed (use i ReadChunk in simp_all)
next
  case (ReadDone c)
  then show ?thesis using i
    by (simp add: read_done_def inv_set_phase_Ended split: phase.splits)
qed

lemma inv_run: "inv st \<Longrightarrow> inv (fst (run P S evs st))"
proof (induction evs arbitrary: st)
  case Nil
  then show ?case by simp
next
  case (Cons e evs)
  then show ?case using inv_step [of st P S e]
    by (simp split: prod.splits) (metis fst_conv)
qed

lemma inv_reachable: "inv (fst (run P S evs (new_client opts)))"
  by (simp add: inv_run inv_new)

subsection \<open>One request, one timer\<close>

lemma at_most_one:
  "\<forall>i<length xs. i \<noteq> c \<longrightarrow> \<not> Q (xs ! i) \<Longrightarrow> length (filter Q xs) \<le> 1"
proof (induction xs arbitrary: c)
  case Nil
  then show ?case by simp
next
  case (Cons x xs)
  show ?case
  proof (cases c)
    case 0
    then have "\<forall>i<length xs. \<not> Q (xs ! i)" using Cons.prems by auto
    then have "filter Q xs = []" by (auto simp: filter_empty_conv in_set_conv_nth)
    then show ?thesis by simp
  next
    case (Suc c')
    then have "\<not> Q x" using Cons.prems by auto
    moreover have "\<forall>i<length xs. i \<noteq> c' \<longrightarrow> \<not> Q (xs ! i)"
      using Cons.prems Suc by auto
    ultimately show ?thesis using Cons.IH [of c'] by simp
  qed
qed

lemma inv_one_handle:
  "inv st \<Longrightarrow> length (filter (\<lambda>c. \<not> aborted c) (connections st)) \<le> 1"
proof -
  assume i: "inv st"
  show ?thesis
  proof (cases "abortController st")
    case None
    then have "\<forall>i<length (connections st). i \<noteq> 0 \<longrightarrow> \<not> \<not> aborted (connections st ! i)"
      using i by (simp add: inv_def)
    then show ?thesis by (rule at_most_one)
  next
    case (Some c)
    then have "\<forall>i<length (connections st). i \<noteq> c \<longrightarrow> \<not> \<not> aborted (connections st ! i)"
      using i by (simp add: inv_def)
    then show ?thesis by (rule at_most_one)
  qed
qed

lemma inv_one_in_flight:
  "inv st \<Longrightarrow> length (filter in_flight (connections st)) \<le> 1"
proof -
  assume i: "inv st"
  have "length (filter in_flight (connections st))
        = length (filter (\<lambda>c. phase c \<noteq> Ended) (filter (\<lambda>c. \<not> aborted c) (connections st)))"
    by (simp add: in_flight_def [abs_def] conj_commute)
  also have "\<dots> \<le> length (filter (\<lambda>c. \<not> aborted c) (connections st))" by (rule length_filter_le)
  finally show ?thesis using inv_one_handle [OF i] by simp
qed

lemma inv_handle_is_current:
  "inv st \<Longrightarrow> i < length (connections st) \<Longrightarrow> \<not> aborted (connections st ! i) \<Longrightarrow>
     abortController st = Some i"
  by (auto simp: inv_def split: option.splits)

lemma inv_timers:
  "inv st \<Longrightarrow> length (timers st) \<le> 1 \<and> (\<forall>t\<in>fst ` set (timers st). reconnectTimeout st = Some t \<and> t < timer_count st)"
  by (auto simp: inv_def)

lemma catch_block_connections:
  "i < length (connections st) \<Longrightarrow>
     aborted (connections (fst (catch_block c err st)) ! i) = aborted (connections st ! i)"
  by (simp add: catch_block_def Let_def set_phase_nth)

lemma catch_block_timers:
  "set (timers (fst (catch_block c err st))) \<subseteq> set (timers st) \<union> {(timer_count st, c_reconnectDelay (connections st ! c))}"
  by (auto simp: catch_block_def Let_def)

lemma connect_aborts_old:
  "inv st \<Longrightarrow> i < length (connections st) \<Longrightarrow> aborted (connections (fst (connect S st)) ! i)"
  by (auto simp: connect_eq pre_connect_old catch_block_connections split: sum.splits)

lemma connect_timers:
  assumes "inv st"
  shows "fst ` set (timers (fst (connect S st))) \<subseteq> {timer_count st}"
proof (cases "buildRequest S (options st) (length (connections st))")
  case (Inl err)
  have "set (timers (fst (catch_block (length (connections st)) err (pre_connect st))))
        \<subseteq> {(timer_count st, c_reconnectDelay (new_connection (options st)))}"
    using catch_block_timers [of "length (connections st)" err "pre_connect st"] assms
    by (simp add: pre_connect_timers)
  then show ?thesis using Inl by (auto simp: connect_eq)
next
  case (Inr r)
  then show ?thesis using assms by (simp add: connect_eq pre_connect_timers)
qed

lemma connect_clears_old:
  assumes "inv st" "t \<in> fst ` set (timers st)"
  shows "t \<notin> fst ` set (timers (fst (connect S st)))"
proof -
  have lt: "t < timer_count st" using assms inv_timers [of st] by blast
  then show ?thesis using connect_timers [OF assms(1), of S] by auto
qed

lemma connect_ok:
  "inv st \<Longrightarrow> buildRequest S (options st) (length (connections st)) = Inr r \<Longrightarrow>
     timers (fst (connect S st)) = [] \<and>
     reconnectAttempts (fst (connect S st)) = reconnectAttempts st \<and>
     snd (connect S st) = [Fetch (url (options st)) r]"
  by (simp add: connect_eq pre_connect_timers)

text \<open>
  C5. In every state a client reaches by any sequence of calls of its methods and
  events of the runtime, at most one connection has a signal that is not aborted
  (so at most one request is in flight) and it is the one of the field
  \<open>abortController\<close>; at most one timer is pending and it is the one of the field
  \<open>reconnectTimeout\<close>. \<open>connect\<close> first tears down: every connection that existed is
  aborted after it and no timer that was pending is pending after it, and when the
  request can be built the attempt count is left as it was. \<open>disconnect\<close> aborts
  every connection, leaves no timer and both fields empty, and sets the attempt count
  to zero exactly when \<open>resetAttempts\<close> is true.
\<close>

theorem one_request_one_timer:
  "st = fst (run P S evs (new_client opts)) \<Longrightarrow>
     length (filter (\<lambda>c. \<not> aborted c) (connections st)) \<le> 1 \<and>
     length (filter in_flight (connections st)) \<le> 1 \<and>
     (\<forall>i<length (connections st). \<not> aborted (connections st ! i) \<longrightarrow> abortController st = Some i) \<and>
     length (timers st) \<le> 1 \<and>
     (\<forall>t\<in>fst ` set (timers st). reconnectTimeout st = Some t) \<and>
     (\<forall>i<length (connections st). aborted (connections (fst (connect S st)) ! i)) \<and>
     (\<forall>t\<in>fst ` set (timers st). t \<notin> fst ` set (timers (fst (connect S st)))) \<and>
     (\<forall>r. buildRequest S (options st) (length (connections st)) = Inr r \<longrightarrow>
          timers (fst (connect S st)) = [] \<and>
          reconnectAttempts (fst (connect S st)) = reconnectAttempts st) \<and>
     abortController (disconnect resetAttempts st) = None \<and>
     reconnectTimeout (disconnect resetAttempts st) = None \<and>
     (\<forall>i<length (connections st). aborted (connections (disconnect resetAttempts st) ! i)) \<and>
     timers (disconnect resetAttempts st) = [] \<and>
     reconnectAttempts (disconnect resetAttempts st)
       = (if resetAttempts then 0 else reconnectAttempts st)"
proof -
  assume "st = fst (run P S evs (new_client opts))"
  then have i: "inv st" by (simp add: inv_reachable)
  show ?thesis
    using inv_one_handle [OF i] inv_one_in_flight [OF i] inv_handle_is_current [OF i]
      inv_timers [OF i] connect_aborts_old [OF i, of _ S] connect_clears_old [OF i, of _ S]
      connect_ok [OF i, of S] disconnect_quiet [OF i, of resetAttempts]
    by (simp del: disconnect_fields(6,7))
qed

theorem one_request_one_timer_witness:
  "timers failed_once_sample = [(1, 1000)] \<and>
   length (timers failed_once_sample) \<le> 1 \<and>
   length (filter in_flight (connections failed_once_sample)) \<le> 1 \<and>
   length (filter (\<lambda>c. \<not> aborted c) (connections failed_once_sample)) \<le> 1 \<and>
   \<not> aborted (connections failed_once_sample ! 0) \<and>
   aborted (connections (fst (connect sample_stringify failed_once_sample)) ! 0) \<and>
   1 \<notin> fst ` set (timers (fst (connect sample_stringify failed_once_sample))) \<and>
   timers (disconnect False failed_once_sample) = [] \<and>
   reconnectAttempts (disconnect False failed_once_sample) = 1 \<and>
   reconnectAttempts (disconnect True failed_once_sample) = 0"
proof -
  have r: "failed_once_sample =
     fst (run sample_parse sample_stringify [Connect, Rejects 0 ''network error'']
            (new_client retry_sample))"
    by (rule failed_once_sample_def)
  have a: "reconnectAttempts failed_once_sample = 1" "timers failed_once_sample = [(1, 1000)]"
    "length (connections failed_once_sample) = 1" "\<not> aborted (connections failed_once_sample ! 0)"
    by (simp_all add: failed_once_sample_eq)
  show ?thesis
    using one_request_one_timer [where resetAttempts = False, OF r]
          one_request_one_timer [where resetAttempts = True, OF r] a
    by simp
qed

subsection \<open>Cancellation\<close>

lemma quiet_disconnect: "inv st \<Longrightarrow> quiet (disconnect r st)"
  using disconnect_quiet [of st r] by (simp add: quiet_def del: disconnect_fields(6,7))

lemma quiet_set_phase: "quiet st \<Longrightarrow> quiet (set_phase c p st)"
  by (simp add: quiet_def set_phase_nth)

lemma quiet_attempts [simp]: "quiet (st\<lparr>reconnectAttempts := n\<rparr>) = quiet st"
  by (simp add: quiet_def)

lemma quiet_catch_block:
  "quiet st \<Longrightarrow> c < length (connections st) \<Longrightarrow>
     catch_block c err st = (set_phase c Ended st, [])"
  by (simp add: quiet_def catch_block_aborted)

lemma quiet_step:
  assumes q: "quiet st" and e: "e \<noteq> Connect"
  shows "quiet (fst (step P S e st)) \<and> (\<forall>err. OnError err \<notin> set (snd (step P S e st)))"
proof (cases e)
  case Connect
  then show ?thesis using e by simp
next
  case (Disconnect r)
  then show ?thesis using q
    by (auto simp: quiet_def aborted_abort clearTimeout_def split: option.splits)
next
  case (UpdateOptions u)
  then show ?thesis using q by (simp add: quiet_def updateOptions_def)
next
  case (TimerFires t)
  then show ?thesis using q by (simp add: quiet_def)
next
  case (FetchResolves c r)
  show ?thesis
  proof (cases "phase_of st c = Fetching")
    case True
    then have "c < length (connections st)" using phase_of_live [of st c] by simp
    then show ?thesis using q True FetchResolves
      by (simp add: fetch_resolves_def quiet_catch_block quiet_set_phase)
  next
    case False
    then show ?thesis using q FetchResolves by (simp split: phase.splits)
  qed
next
  case (Rejects c msg)
  show ?thesis
  proof (cases "phase_of st c = Ended")
    case True
    then show ?thesis using q Rejects by simp
  next
    case False
    then have "c < length (connections st)" using phase_of_live [of st c] by simp
    then show ?thesis using q False Rejects
      by (simp add: quiet_catch_block quiet_set_phase split: phase.splits)
  qed
next
  case (ReadChunk c chunk)
  then show ?thesis using q
    by (auto simp: read_chunk_def quiet_set_phase split: phase.splits prod.splits)
next
  case (ReadDone c)
  then show ?thesis using q
    by (simp add: read_done_def quiet_set_phase split: phase.splits)
qed

lemma quiet_run:
  "quiet st \<Longrightarrow> Connect \<notin> set evs \<Longrightarrow>
     quiet (fst (run P S evs st)) \<and> (\<forall>err. OnError err \<notin> set (snd (run P S evs st)))"
proof (induction evs arbitrary: st)
  case Nil
  then show ?case by simp
next
  case (Cons e evs)
  obtain st1 out1 where s: "step P S e st = (st1, out1)" by (cases "step P S e st")
  have e: "e \<noteq> Connect" and es: "Connect \<notin> set evs" using Cons.prems(2) by auto
  have q1: "quiet st1" and o1: "\<forall>err. OnError err \<notin> set out1"
    using quiet_step [OF Cons.prems(1) e, of P S] s by simp_all
  show ?case using Cons.IH [OF q1 es] o1 s by (auto split: prod.splits)
qed

lemma quiet_terminal:
  assumes q: "quiet st"
  shows "snd (step P S (Rejects c msg) st) = []"
    and "\<not> ok resp \<or> \<not> has_body resp \<Longrightarrow> snd (step P S (FetchResolves c resp) st) = []"
    and "snd (step P S (ReadDone c) st) = [] \<or> snd (step P S (ReadDone c) st) = [OnClose]"
proof -
  show "snd (step P S (Rejects c msg) st) = []"
  proof (cases "phase_of st c = Ended")
    case True
    then show ?thesis by simp
  next
    case False
    then have "c < length (connections st)" using phase_of_live [of st c] by simp
    then show ?thesis using q False by (simp add: quiet_catch_block split: phase.splits)
  qed
  show "snd (step P S (FetchResolves c resp) st) = []" if "\<not> ok resp \<or> \<not> has_body resp"
  proof (cases "phase_of st c = Fetching")
    case True
    then have "c < length (connections st)" using phase_of_live [of st c] by simp
    then show ?thesis using q True that by (auto simp: fetch_resolves_def quiet_catch_block)
  next
    case False
    then show ?thesis by (simp split: phase.splits)
  qed
  show "snd (step P S (ReadDone c) st) = [] \<or> snd (step P S (ReadDone c) st) = [OnClose]"
    by (simp add: read_done_def split: phase.splits)
qed

lemma run_by_run: "map snd (run_by P S evs st) = snd (run P S evs st)"
  by (induction evs arbitrary: st) (simp_all add: comp_def split: prod.splits)

lemma catch_block_conns:
  "connections (fst (catch_block c err st)) = connections (set_phase c Ended st)"
  by (simp add: catch_block_def Let_def)

lemma torn_set_phase: "torn n st \<Longrightarrow> torn n (set_phase c p st)"
  by (simp add: torn_def set_phase_nth)

lemma torn_catch_block: "torn n st \<Longrightarrow> torn n (fst (catch_block c err st))"
  using torn_set_phase [of n st c Ended] by (simp add: torn_def catch_block_conns)

lemma torn_disconnect: "torn n st \<Longrightarrow> torn n (disconnect r st)"
  by (auto simp: torn_def aborted_abort split: option.splits)

lemma torn_attempts [simp]: "torn n (st\<lparr>reconnectAttempts := k\<rparr>) = torn n st"
  by (simp add: torn_def)

lemma torn_timers [simp]: "torn n (st\<lparr>timers := ts\<rparr>) = torn n st"
  by (simp add: torn_def)

lemma torn_pre_connect: "torn n st \<Longrightarrow> torn n (pre_connect st)"
  using torn_disconnect [of n st False]
  by (auto simp: torn_def pre_connect_def nth_append simp del: disconnect_fields(6))

lemma torn_connect: "torn n st \<Longrightarrow> torn n (fst (connect S st))"
  by (auto simp: connect_eq torn_pre_connect torn_catch_block split: sum.splits)

lemma torn_step: "torn n st \<Longrightarrow> torn n (fst (step P S e st))"
proof (cases e)
  case (UpdateOptions u)
  assume "torn n st"
  then show ?thesis using UpdateOptions by (simp add: torn_def updateOptions_def)
qed (auto simp: torn_connect torn_disconnect torn_catch_block torn_set_phase
       fetch_resolves_def read_chunk_def read_done_def split: phase.splits prod.splits)

lemma torn_run: "torn n st \<Longrightarrow> torn n (fst (run P S evs st))"
proof (induction evs arbitrary: st)
  case Nil
  then show ?case by simp
next
  case (Cons e evs)
  then show ?case using torn_step [of n st P S e]
    by (simp split: prod.splits) (metis fst_conv)
qed

lemma torn_catch: "torn n st \<Longrightarrow> c < n \<Longrightarrow> catch_block c err st = (set_phase c Ended st, [])"
  by (simp add: torn_def catch_block_aborted)

lemma torn_effects:
  assumes t: "torn n st" and s: "source st e = Some c" and c: "c < n"
  shows "\<forall>x\<in>set (snd (step P S e st)). data_callback x"
proof (cases e)
  case Connect
  then show ?thesis using t s c by (simp add: torn_def)
next
  case (TimerFires x)
  then show ?thesis using t s c by (simp add: torn_def)
next
  case (FetchResolves c' r)
  then show ?thesis using s torn_catch [OF t c]
    by (auto simp: fetch_resolves_def data_callback_def split: phase.splits)
next
  case (Rejects c' msg)
  then show ?thesis using s torn_catch [OF t c]
    by (auto split: phase.splits)
next
  case (ReadChunk c' chunk)
  then show ?thesis
    by (auto simp: read_chunk_def data_callback_def split: phase.splits prod.splits)
next
  case (ReadDone c')
  then show ?thesis by (auto simp: read_done_def data_callback_def split: phase.splits)
qed (use s in simp_all)

lemma torn_run_by:
  "torn n st \<Longrightarrow> c < n \<Longrightarrow> (Some c, x) \<in> set (run_by P S evs st) \<Longrightarrow> data_callback x"
proof (induction evs arbitrary: st)
  case Nil
  then show ?case by simp
next
  case (Cons e evs)
  from Cons.prems(3) consider
      (here) "source st e = Some c" "x \<in> set (snd (step P S e st))"
    | (later) "(Some c, x) \<in> set (run_by P S evs (fst (step P S e st)))"
    by auto
  then show ?case
  proof cases
    case here
    then show ?thesis using torn_effects [OF Cons.prems(1) here(1) Cons.prems(2), of P S] by blast
  next
    case later
    then show ?thesis
      using Cons.IH [OF torn_step [OF Cons.prems(1)] Cons.prems(2)] by blast
  qed
qed

lemma torn_terminal:
  assumes t: "torn n st" and c: "c < n"
  shows "snd (step P S (Rejects c msg) st) = []"
    and "timers (fst (step P S (Rejects c msg) st)) = timers st"
    and "reconnectAttempts (fst (step P S (Rejects c msg) st)) = reconnectAttempts st"
    and "\<not> ok resp \<or> \<not> has_body resp \<Longrightarrow> snd (step P S (FetchResolves c resp) st) = []"
    and "\<not> ok resp \<or> \<not> has_body resp \<Longrightarrow>
           timers (fst (step P S (FetchResolves c resp) st)) = timers st"
    and "\<not> ok resp \<or> \<not> has_body resp \<Longrightarrow>
           reconnectAttempts (fst (step P S (FetchResolves c resp) st)) = reconnectAttempts st"
    and "snd (step P S (ReadDone c) st) = [] \<or> snd (step P S (ReadDone c) st) = [OnClose]"
    and "timers (fst (step P S (ReadDone c) st)) = timers st"
proof -
  note cb = torn_catch [OF t c]
  show "snd (step P S (Rejects c msg) st) = []" by (simp add: cb split: phase.splits)
  show "timers (fst (step P S (Rejects c msg) st)) = timers st"
    by (simp add: cb split: phase.splits)
  show "reconnectAttempts (fst (step P S (Rejects c msg) st)) = reconnectAttempts st"
    by (simp add: cb split: phase.splits)
  show "snd (step P S (FetchResolves c resp) st) = []" if "\<not> ok resp \<or> \<not> has_body resp"
    using that by (auto simp: fetch_resolves_def cb split: phase.splits)
  show "timers (fst (step P S (FetchResolves c resp) st)) = timers st"
    if "\<not> ok resp \<or> \<not> has_body resp"
    using that by (auto simp: fetch_resolves_def cb split: phase.splits)
  show "reconnectAttempts (fst (step P S (FetchResolves c resp) st)) = reconnectAttempts st"
    if "\<not> ok resp \<or> \<not> has_body resp"
    using that by (auto simp: fetch_resolves_def cb split: phase.splits)
  show "snd (step P S (ReadDone c) st) = [] \<or> snd (step P S (ReadDone c) st) = [OnClose]"
    by (simp add: read_done_def split: phase.splits)
  show "timers (fst (step P S (ReadDone c) st)) = timers st"
    by (simp add: read_done_def split: phase.splits)
qed

lemma torn_after_disconnect: "inv st \<Longrightarrow> torn (length (connections st)) (disconnect r st)"
  using disconnect_quiet(1) [of st r] by (simp add: torn_def del: disconnect_fields(6))

text \<open>
  C4, as the code has it. A connection that existed when \<open>disconnect\<close> was called
  has its signal aborted, and keeps it so whatever happens to the client afterwards,
  later calls of \<open>connect\<close> included. It never calls \<open>onError\<close>: an error of it (a
  rejected \<open>fetch\<close> or \<open>read\<close>, a bad status, a missing body) calls no callback at
  all, sets no timer and leaves the attempt count, and the end of its stream calls at
  most \<open>onClose\<close>. The only callbacks it can still call are \<open>onOpen\<close>, \<open>onMessage\<close>
  and \<open>onClose\<close>, for a response or a chunk the runtime still delivers to it: the
  read path does not test the signal. Until the caller calls \<open>connect\<close> again, no
  connection at all calls \<open>onError\<close> and no timer is set.
\<close>

theorem cancellation_is_silent:
  "st0 = fst (run P S evs0 (new_client opts)) \<Longrightarrow>
   st = fst (run P S evs (disconnect resetAttempts st0)) \<Longrightarrow>
   c < length (connections st0) \<Longrightarrow>
     aborted (connections (disconnect resetAttempts st0) ! c) \<and>
     aborted (connections st ! c) \<and>
     map snd (run_by P S evs (disconnect resetAttempts st0))
       = snd (run P S evs (disconnect resetAttempts st0)) \<and>
     (\<forall>x. (Some c, x) \<in> set (run_by P S evs (disconnect resetAttempts st0)) \<longrightarrow>
          x = OnOpen \<or> x = OnClose \<or> (\<exists>m. x = OnMessage m)) \<and>
     (\<forall>err. (Some c, OnError err) \<notin> set (run_by P S evs (disconnect resetAttempts st0))) \<and>
     snd (step P S (Rejects c msg) st) = [] \<and>
     timers (fst (step P S (Rejects c msg) st)) = timers st \<and>
     reconnectAttempts (fst (step P S (Rejects c msg) st)) = reconnectAttempts st \<and>
     (\<not> ok resp \<or> \<not> has_body resp \<longrightarrow>
        snd (step P S (FetchResolves c resp) st) = [] \<and>
        timers (fst (step P S (FetchResolves c resp) st)) = timers st \<and>
        reconnectAttempts (fst (step P S (FetchResolves c resp) st)) = reconnectAttempts st) \<and>
     (snd (step P S (ReadDone c) st) = [] \<or> snd (step P S (ReadDone c) st) = [OnClose]) \<and>
     timers (fst (step P S (ReadDone c) st)) = timers st \<and>
     (Connect \<notin> set evs \<longrightarrow>
        (\<forall>err. OnError err \<notin> set (snd (run P S evs (disconnect resetAttempts st0)))) \<and>
        timers st = [])"
proof -
  assume r: "st0 = fst (run P S evs0 (new_client opts))"
     and st: "st = fst (run P S evs (disconnect resetAttempts st0))"
     and c: "c < length (connections st0)"
  have i: "inv st0" using r by (simp add: inv_reachable)
  have t0: "torn (length (connections st0)) (disconnect resetAttempts st0)"
    using i by (rule torn_after_disconnect)
  have t: "torn (length (connections st0)) st" using torn_run [OF t0] st by simp
  have a0: "aborted (connections (disconnect resetAttempts st0) ! c)"
    using t0 c by (simp add: torn_def del: disconnect_fields(6))
  have a: "aborted (connections st ! c)" using t c by (simp add: torn_def)
  have d: "\<forall>x. (Some c, x) \<in> set (run_by P S evs (disconnect resetAttempts st0)) \<longrightarrow>
          x = OnOpen \<or> x = OnClose \<or> (\<exists>m. x = OnMessage m)"
    using torn_run_by [OF t0 c] by (auto simp: data_callback_def)
  then have e: "\<forall>err. (Some c, OnError err) \<notin> set (run_by P S evs (disconnect resetAttempts st0))"
    by blast
  have q0: "quiet (disconnect resetAttempts st0)" using i by (rule quiet_disconnect)
  have q: "Connect \<notin> set evs \<longrightarrow>
        (\<forall>err. OnError err \<notin> set (snd (run P S evs (disconnect resetAttempts st0)))) \<and>
        timers st = []"
    using quiet_run [OF q0] st by (simp add: quiet_def)
  show ?thesis
    using a0 a d e q run_by_run [of P S evs "disconnect resetAttempts st0"]
      torn_terminal(1-3) [OF t c, of P S msg] torn_terminal(4-6) [OF t c, of resp P S]
      torn_terminal(7-8) [OF t c, of P S]
    by simp
qed

theorem cancellation_is_silent_witness:
  "aborted (connections (disconnect True open_sample) ! 0) \<and>
   map fst (run_by sample_parse sample_stringify
              [Connect, Rejects 0 ''AbortError'', Rejects 1 ''network error'']
              (disconnect True open_sample)) = [Some 1, Some 1] \<and>
   (Some 0, OnError (Thrown ''AbortError''))
     \<notin> set (run_by sample_parse sample_stringify
                [Connect, Rejects 0 ''AbortError'', Rejects 1 ''network error'']
                (disconnect True open_sample)) \<and>
   snd (step sample_parse sample_stringify (Rejects 0 ''AbortError'')
          (fst (run sample_parse sample_stringify
                  [Connect, Rejects 0 ''AbortError'', Rejects 1 ''network error'']
                  (disconnect True open_sample)))) = [] \<and>
   snd (run sample_parse sample_stringify [Rejects 0 ''AbortError'']
          (disconnect True open_sample)) = [] \<and>
   snd (run sample_parse sample_stringify [ReadDone 0] (disconnect True open_sample)) = [OnClose]"
proof -
  have r: "open_sample =
     fst (run sample_parse sample_stringify [Connect, FetchResolves 0 good_response]
            (new_client retry_sample))"
    by (rule open_sample_def)
  have c: "0 < length (connections open_sample)" by (simp add: open_sample_eq)
  have v: "map fst (run_by sample_parse sample_stringify
              [Connect, Rejects 0 ''AbortError'', Rejects 1 ''network error'']
              (disconnect True open_sample)) = [Some 1, Some 1]"
    "snd (run sample_parse sample_stringify [Rejects 0 ''AbortError'']
          (disconnect True open_sample)) = []"
    "snd (run sample_parse sample_stringify [ReadDone 0] (disconnect True open_sample)) = [OnClose]"
    by (simp_all add: open_sample_eq client_eval)
  show ?thesis
    using cancellation_is_silent
            [where resetAttempts = True and msg = "''AbortError''", OF r refl c] v
    by blast
qed

text \<open>
  The claim as written fails for what the runtime delivers after the abort: a chunk
  handed to the cancelled connection still calls \<open>onMessage\<close>, and a response that
  resolves after the abort still calls \<open>onOpen\<close>.
\<close>

theorem cancellation_is_silent_counterexample:
  "aborted (connections (disconnect True open_sample) ! 0) \<and>
   snd (run sample_parse sample_stringify [ReadChunk 0 (''data: a'' @ [LF, LF]), ReadDone 0]
          (disconnect True open_sample))
     = [OnMessage \<lparr>msg_event = ''message'', msg_type = JStr ''message'',
                   msg_data = JStr ''a'', msg_timestamp = Generated\<rparr>,
        OnClose] \<and>
   aborted (connections (disconnect True connected_sample) ! 0) \<and>
   snd (run sample_parse sample_stringify [FetchResolves 0 good_response]
          (disconnect True connected_sample)) = [OnOpen]"
  by (simp add: open_sample_eq connected_sample_eq client_eval decoder_eval del: dq_def)

subsection \<open>End of stream\<close>

lemma phase_of_set_phase:
  "c < length (connections st) \<Longrightarrow> phase_of (set_phase c p st) c = p"
  by (simp add: phase_of_def set_phase_nth)

text \<open>
  C9. When a \<open>read\<close> of a connection in the read loop reports the end of the
  stream, exactly \<open>onClose\<close> is called, the connection has returned (later chunks,
  ends and errors of it do nothing), and the timers, the timer field and the attempt
  count are as before: no error is reported and no retry is set, whatever the
  captured \<open>autoReconnect\<close> is.
\<close>

theorem end_of_stream_closes:
  "phase_of st c = Reading d \<Longrightarrow> st' = fst (step P S (ReadDone c) st) \<Longrightarrow>
     snd (step P S (ReadDone c) st) = [OnClose] \<and>
     phase_of st' c = Ended \<and>
     timers st' = timers st \<and>
     reconnectTimeout st' = reconnectTimeout st \<and>
     reconnectAttempts st' = reconnectAttempts st \<and>
     abortController st' = abortController st \<and>
     step P S (ReadChunk c chunk) st' = (st', []) \<and>
     step P S (ReadDone c) st' = (st', []) \<and>
     step P S (Rejects c msg) st' = (st', [])"
proof -
  assume p: "phase_of st c = Reading d" and s: "st' = fst (step P S (ReadDone c) st)"
  have c: "c < length (connections st)" using phase_of_live [of st c] p by simp
  have s': "st' = set_phase c Ended st" using p s by (simp add: read_done_def)
  have e: "phase_of st' c = Ended" using c s' by (simp add: phase_of_set_phase)
  show ?thesis using p e by (simp add: read_done_def s')
qed

theorem end_of_stream_closes_witness:
  "phase_of open_sample 0 = Reading initial_decoder \<and>
   c_autoReconnect (connections open_sample ! 0) \<and>
   snd (step sample_parse sample_stringify (ReadDone 0) open_sample) = [OnClose] \<and>
   phase_of (fst (step sample_parse sample_stringify (ReadDone 0) open_sample)) 0 = Ended \<and>
   timers (fst (step sample_parse sample_stringify (ReadDone 0) open_sample)) = [] \<and>
   reconnectAttempts (fst (step sample_parse sample_stringify (ReadDone 0) open_sample)) = 0"
proof -
  have p: "phase_of open_sample 0 = Reading initial_decoder"
    by (simp add: open_sample_eq phase_of_def)
  have a: "c_autoReconnect (connections open_sample ! 0)" "timers open_sample = []"
    "reconnectAttempts open_sample = 0"
    by (simp_all add: open_sample_eq)
  show ?thesis
    using end_of_stream_closes [where P = sample_parse and S = sample_stringify, OF p refl] p a
    by simp
qed

subsection \<open>The retry policy\<close>

lemma step_Rejects_live:
  "c < length (connections st) \<Longrightarrow> phase (connections st ! c) \<noteq> Ended \<Longrightarrow>
     step P S (Rejects c msg) st = catch_block c (Thrown msg) st"
  by (simp add: phase_of_def split: phase.splits)

lemma step_FetchResolves_bad:
  "c < length (connections st) \<Longrightarrow> phase (connections st ! c) = Fetching \<Longrightarrow>
   \<not> ok resp \<or> \<not> has_body resp \<Longrightarrow>
     step P S (FetchResolves c resp) st =
       catch_block c (if \<not> ok resp then HttpError (status resp) (statusText resp) else NoResponseBody) st"
  by (auto simp: phase_of_def fetch_resolves_def)

lemma catch_block_policy:
  "\<not> aborted (connections st ! c) \<Longrightarrow>
     snd (catch_block c err st) = [OnError err] \<and>
     (if c_autoReconnect (connections st ! c) \<and>
         (c_maxReconnectAttempts (connections st ! c) = 0 \<or>
          int (reconnectAttempts st) < c_maxReconnectAttempts (connections st ! c))
      then timers (fst (catch_block c err st))
             = timers st @ [(timer_count st, c_reconnectDelay (connections st ! c))] \<and>
           reconnectTimeout (fst (catch_block c err st)) = Some (timer_count st) \<and>
           reconnectAttempts (fst (catch_block c err st)) = reconnectAttempts st + 1
      else timers (fst (catch_block c err st)) = timers st \<and>
           reconnectAttempts (fst (catch_block c err st)) = reconnectAttempts st)"
  by (simp add: catch_block_live retry_due_def)

lemma catch_block_options [simp]: "options (fst (catch_block c err st)) = options st"
  by (simp add: catch_block_def Let_def)

lemma poised_current:
  assumes "poised S N k st"
  obtains c where "abortController st = Some c" "c < length (connections st)"
    "\<not> aborted (connections st ! c)" "phase (connections st ! c) \<noteq> Ended"
    "c_autoReconnect (connections st ! c)" "c_maxReconnectAttempts (connections st ! c) = int N"
    "timers st = []"
  using assms by (auto simp: poised_def inv_def)

lemma poised_rejects:
  assumes p: "poised S N k st"
  shows "k < N \<Longrightarrow> armed S N (Suc k) (current_rejects P S msg st)"
    and "k = N \<Longrightarrow> 0 < N \<Longrightarrow>
           timers (current_rejects P S msg st) = [] \<and>
           reconnectAttempts (current_rejects P S msg st) = N"
proof -
  from p obtain c where c: "abortController st = Some c" "c < length (connections st)"
    "\<not> aborted (connections st ! c)" "phase (connections st ! c) \<noteq> Ended"
    "c_autoReconnect (connections st ! c)" "c_maxReconnectAttempts (connections st ! c) = int N"
    "timers st = []"
    by (rule poised_current)
  have k: "reconnectAttempts st = k" and i: "inv st" and o: "retry_options S N st"
    using p by (simp_all add: poised_def)
  have cr: "current_rejects P S msg st = fst (catch_block c (Thrown msg) st)"
    using c by (simp add: current_rejects_def step_Rejects_live del: step.simps)
  have i': "inv (fst (catch_block c (Thrown msg) st))"
    using i c by (simp add: inv_catch_block)
  show "armed S N (Suc k) (current_rejects P S msg st)" if "k < N"
    using catch_block_policy [OF c(3), of "Thrown msg"] c that k i' o
    by (simp add: cr armed_def retry_options_def)
  show "timers (current_rejects P S msg st) = [] \<and>
        reconnectAttempts (current_rejects P S msg st) = N" if "k = N" "0 < N"
    using catch_block_policy [OF c(3), of "Thrown msg"] c that k
    by (simp add: cr)
qed

lemma armed_fires:
  assumes a: "armed S N k st"
  shows "poised S N k (retry_fires P S st)"
proof -
  from a obtain t d where t: "timers st = [(t, d)]" by (auto simp: armed_def)
  have i: "inv st" and o: "retry_options S N st" and k: "reconnectAttempts st = k"
    using a by (simp_all add: armed_def)
  let ?st = "st\<lparr>timers := clearTimeout t (timers st)\<rparr>"
  have i1: "inv ?st" using i by (rule inv_clear_timer)
  obtain r where r: "buildRequest S (options st) (length (connections st)) = Inr r"
    using o by (auto simp: retry_options_def)
  have rf: "retry_fires P S st = pre_connect ?st"
    using t r by (simp add: retry_fires_def connect_eq)
  have nc: "connections (pre_connect ?st) ! length (connections st) = new_connection (options st)"
    using pre_connect_fields(7) [of ?st] by simp
  have "inv (pre_connect ?st)" using i1 by (rule inv_pre_connect)
  then show ?thesis using o k
    by (simp add: rf poised_def retry_options_def nc new_connection_def)
qed

lemma poised_no_fire: "poised S N k st \<Longrightarrow> retry_fires P S st = st"
  by (erule poised_current) (simp add: retry_fires_def)

lemma failures_armed:
  assumes p: "poised S N 0 st"
  shows "k < N \<Longrightarrow> armed S N (Suc k) (failures P S msg (Suc k) st)"
proof (induction k)
  case 0
  then show ?case using poised_rejects(1) [OF p, of P msg] poised_no_fire [OF p, of P] by simp
next
  case (Suc k)
  then have "armed S N (Suc k) (failures P S msg (Suc k) st)" by simp
  then have "poised S N (Suc k) (retry_fires P S (failures P S msg (Suc k) st))"
    by (rule armed_fires)
  then show ?case using Suc.prems poised_rejects(1) [of S N "Suc k" _ P msg] by simp
qed

lemma failures_exhausted:
  assumes p: "poised S N 0 st" and n: "0 < N"
  shows "timers (failures P S msg (Suc N) st) = [] \<and>
         reconnectAttempts (failures P S msg (Suc N) st) = N"
proof -
  obtain k where k: "N = Suc k" using n by (cases N) auto
  have "armed S N N (failures P S msg N st)"
    using failures_armed [OF p, of k P msg] k by simp
  then have "poised S N N (retry_fires P S (failures P S msg N st))" by (rule armed_fires)
  then show ?thesis using poised_rejects(2) [of S N N _ P msg] n by simp
qed

lemma connect_fails:
  assumes i: "inv st" and b: "buildRequest S (options st) (length (connections st)) = Inl err"
  shows "snd (connect S st) = [OnError err] \<and>
     (if c_autoReconnect (new_connection (options st)) \<and>
         (c_maxReconnectAttempts (new_connection (options st)) = 0 \<or>
          int (reconnectAttempts st) < c_maxReconnectAttempts (new_connection (options st)))
      then timers (fst (connect S st))
             = [(timer_count st, c_reconnectDelay (new_connection (options st)))] \<and>
           reconnectTimeout (fst (connect S st)) = Some (timer_count st) \<and>
           reconnectAttempts (fst (connect S st)) = reconnectAttempts st + 1
      else timers (fst (connect S st)) = [] \<and>
           reconnectAttempts (fst (connect S st)) = reconnectAttempts st)"
proof -
  have n: "\<not> aborted (connections (pre_connect st) ! length (connections st))" by simp
  show ?thesis
    using catch_block_policy [OF n, of err] b i
    by (simp add: connect_eq pre_connect_timers)
qed

lemma step_failure_policy:
  assumes c: "c < length (connections st)" and a: "\<not> aborted (connections st ! c)"
    and e: "(e = Rejects c msg \<and> phase (connections st ! c) \<noteq> Ended) \<or>
            (e = FetchResolves c resp \<and> phase (connections st ! c) = Fetching \<and>
             (\<not> ok resp \<or> \<not> has_body resp))"
  shows "(\<exists>err. snd (step P S e st) = [OnError err]) \<and>
     (if c_autoReconnect (connections st ! c) \<and>
         (c_maxReconnectAttempts (connections st ! c) = 0 \<or>
          int (reconnectAttempts st) < c_maxReconnectAttempts (connections st ! c))
      then timers (fst (step P S e st))
             = timers st @ [(timer_count st, c_reconnectDelay (connections st ! c))] \<and>
           reconnectTimeout (fst (step P S e st)) = Some (timer_count st) \<and>
           reconnectAttempts (fst (step P S e st)) = reconnectAttempts st + 1
      else timers (fst (step P S e st)) = timers st \<and>
           reconnectAttempts (fst (step P S e st)) = reconnectAttempts st)"
proof -
  obtain err where "step P S e st = catch_block c err st"
    using e step_Rejects_live [OF c, of P S msg] step_FetchResolves_bad [OF c, of resp P S]
    by auto
  then show ?thesis using catch_block_policy [OF a, of err] by auto
qed

lemma step_open_resets:
  "phase_of st c = Fetching \<Longrightarrow> ok resp \<Longrightarrow> has_body resp \<Longrightarrow>
     reconnectAttempts (fst (step P S (FetchResolves c resp) st)) = 0 \<and>
     snd (step P S (FetchResolves c resp) st) = [OnOpen]"
  by (simp add: fetch_resolves_def)

text \<open>
  C2. A failure of a connection whose signal is not aborted (a rejected \<open>fetch\<close> or
  \<open>read\<close>, a response without success status or without body, and likewise a
  request that cannot be built) calls \<open>onError\<close> once; it sets one timer with the
  captured delay and adds one to the attempt count exactly when \<open>autoReconnect\<close> is
  on and the ceiling is zero or the attempt count is below the ceiling, and otherwise
  changes neither. With retries on and a ceiling \<open>N > 0\<close>, starting from an attempt
  count of zero, each of the first \<open>N\<close> consecutive failures leaves a pending timer
  and the count at the number of failures so far, and failure \<open>N + 1\<close> leaves no
  timer and the count at \<open>N\<close>. A response with success status and body sets the
  attempt count to zero and calls \<open>onOpen\<close>, so that the same holds again from there.
\<close>

theorem retry_policy:
  "(c < length (connections st) \<and> \<not> aborted (connections st ! c) \<and>
    ((e = Rejects c msg \<and> phase (connections st ! c) \<noteq> Ended) \<or>
     (e = FetchResolves c resp \<and> phase (connections st ! c) = Fetching \<and>
      (\<not> ok resp \<or> \<not> has_body resp))) \<longrightarrow>
      (\<exists>err. snd (step P S e st) = [OnError err]) \<and>
      (if c_autoReconnect (connections st ! c) \<and>
          (c_maxReconnectAttempts (connections st ! c) = 0 \<or>
           int (reconnectAttempts st) < c_maxReconnectAttempts (connections st ! c))
       then timers (fst (step P S e st))
              = timers st @ [(timer_count st, c_reconnectDelay (connections st ! c))] \<and>
            reconnectTimeout (fst (step P S e st)) = Some (timer_count st) \<and>
            reconnectAttempts (fst (step P S e st)) = reconnectAttempts st + 1
       else timers (fst (step P S e st)) = timers st \<and>
            reconnectAttempts (fst (step P S e st)) = reconnectAttempts st)) \<and>
   (st0 = fst (run P S evs0 (new_client opts0)) \<and>
    buildRequest S (options st0) (length (connections st0)) = Inl err0 \<longrightarrow>
      snd (connect S st0) = [OnError err0] \<and>
      (if c_autoReconnect (new_connection (options st0)) \<and>
          (c_maxReconnectAttempts (new_connection (options st0)) = 0 \<or>
           int (reconnectAttempts st0) < c_maxReconnectAttempts (new_connection (options st0)))
       then timers (fst (connect S st0))
              = [(timer_count st0, c_reconnectDelay (new_connection (options st0)))] \<and>
            reconnectTimeout (fst (connect S st0)) = Some (timer_count st0) \<and>
            reconnectAttempts (fst (connect S st0)) = reconnectAttempts st0 + 1
       else timers (fst (connect S st0)) = [] \<and>
            reconnectAttempts (fst (connect S st0)) = reconnectAttempts st0)) \<and>
   (st1 = fst (run P S evs1 (new_client opts1)) \<and> 0 < N \<and>
    autoReconnect (options st1) = Some True \<and>
    maxReconnectAttempts (options st1) = Some (int N) \<and>
    (\<forall>sig. \<exists>r. buildRequest S (options st1) sig = Inr r) \<and>
    abortController st1 = Some c1 \<and> phase (connections st1 ! c1) \<noteq> Ended \<and>
    c_autoReconnect (connections st1 ! c1) \<and>
    c_maxReconnectAttempts (connections st1 ! c1) = int N \<and>
    reconnectAttempts st1 = 0 \<longrightarrow>
      (\<forall>k. 1 \<le> k \<and> k \<le> N \<longrightarrow>
           length (timers (failures P S msg1 k st1)) = 1 \<and>
           reconnectAttempts (failures P S msg1 k st1) = k) \<and>
      timers (failures P S msg1 (N + 1) st1) = [] \<and>
      reconnectAttempts (failures P S msg1 (N + 1) st1) = N) \<and>
   (phase_of st2 c2 = Fetching \<and> ok resp2 \<and> has_body resp2 \<longrightarrow>
      reconnectAttempts (fst (step P S (FetchResolves c2 resp2) st2)) = 0 \<and>
      snd (step P S (FetchResolves c2 resp2) st2) = [OnOpen])"
proof (intro conjI impI)
  assume h: "st1 = fst (run P S evs1 (new_client opts1)) \<and> 0 < N \<and>
    autoReconnect (options st1) = Some True \<and>
    maxReconnectAttempts (options st1) = Some (int N) \<and>
    (\<forall>sig. \<exists>r. buildRequest S (options st1) sig = Inr r) \<and>
    abortController st1 = Some c1 \<and> phase (connections st1 ! c1) \<noteq> Ended \<and>
    c_autoReconnect (connections st1 ! c1) \<and>
    c_maxReconnectAttempts (connections st1 ! c1) = int N \<and>
    reconnectAttempts st1 = 0"
  then have "inv st1" using inv_reachable [of P S evs1 opts1] by blast
  then have p: "poised S N 0 st1" using h unfolding poised_def retry_options_def by blast
  show "\<forall>k. 1 \<le> k \<and> k \<le> N \<longrightarrow>
           length (timers (failures P S msg1 k st1)) = 1 \<and>
           reconnectAttempts (failures P S msg1 k st1) = k"
  proof (intro allI impI)
    fix k assume k: "1 \<le> k \<and> k \<le> N"
    then obtain j where j: "k = Suc j" by (cases k) auto
    then have "armed S N k (failures P S msg1 k st1)"
      using failures_armed [OF p, of j P msg1] k by simp
    then show "length (timers (failures P S msg1 k st1)) = 1 \<and>
               reconnectAttempts (failures P S msg1 k st1) = k"
      by (auto simp: armed_def)
  qed
  show "timers (failures P S msg1 (N + 1) st1) = []"
    and "reconnectAttempts (failures P S msg1 (N + 1) st1) = N"
    using failures_exhausted [OF p, of P msg1] h by simp_all
next
  assume "c < length (connections st) \<and> \<not> aborted (connections st ! c) \<and>
    ((e = Rejects c msg \<and> phase (connections st ! c) \<noteq> Ended) \<or>
     (e = FetchResolves c resp \<and> phase (connections st ! c) = Fetching \<and>
      (\<not> ok resp \<or> \<not> has_body resp)))"
  then have *: "(\<exists>err. snd (step P S e st) = [OnError err]) \<and>
     (if c_autoReconnect (connections st ! c) \<and>
         (c_maxReconnectAttempts (connections st ! c) = 0 \<or>
          int (reconnectAttempts st) < c_maxReconnectAttempts (connections st ! c))
      then timers (fst (step P S e st))
             = timers st @ [(timer_count st, c_reconnectDelay (connections st ! c))] \<and>
           reconnectTimeout (fst (step P S e st)) = Some (timer_count st) \<and>
           reconnectAttempts (fst (step P S e st)) = reconnectAttempts st + 1
      else timers (fst (step P S e st)) = timers st \<and>
           reconnectAttempts (fst (step P S e st)) = reconnectAttempts st)"
    using step_failure_policy [of c st e msg resp P S] by blast
  from * show "\<exists>err. snd (step P S e st) = [OnError err]" by blast
  from * show "if c_autoReconnect (connections st ! c) \<and>
          (c_maxReconnectAttempts (connections st ! c) = 0 \<or>
           int (reconnectAttempts st) < c_maxReconnectAttempts (connections st ! c))
       then timers (fst (step P S e st))
              = timers st @ [(timer_count st, c_reconnectDelay (connections st ! c))] \<and>
            reconnectTimeout (fst (step P S e st)) = Some (timer_count st) \<and>
            reconnectAttempts (fst (step P S e st)) = reconnectAttempts st + 1
       else timers (fst (step P S e st)) = timers st \<and>
            reconnectAttempts (fst (step P S e st)) = reconnectAttempts st" by blast
next
  assume h: "st0 = fst (run P S evs0 (new_client opts0)) \<and>
    buildRequest S (options st0) (length (connections st0)) = Inl err0"
  then have i: "inv st0" using inv_reachable [of P S evs0 opts0] by blast
  from h have b: "buildRequest S (options st0) (length (connections st0)) = Inl err0" by blast
  show "snd (connect S st0) = [OnError err0]"
    using connect_fails [OF i b] by blast
  show "if c_autoReconnect (new_connection (options st0)) \<and>
          (c_maxReconnectAttempts (new_connection (options st0)) = 0 \<or>
           int (reconnectAttempts st0) < c_maxReconnectAttempts (new_connection (options st0)))
       then timers (fst (connect S st0))
              = [(timer_count st0, c_reconnectDelay (new_connection (options st0)))] \<and>
            reconnectTimeout (fst (connect S st0)) = Some (timer_count st0) \<and>
            reconnectAttempts (fst (connect S st0)) = reconnectAttempts st0 + 1
       else timers (fst (connect S st0)) = [] \<and>
            reconnectAttempts (fst (connect S st0)) = reconnectAttempts st0"
    using connect_fails [OF i b] by blast
next
  assume "phase_of st2 c2 = Fetching \<and> ok resp2 \<and> has_body resp2"
  then show "reconnectAttempts (fst (step P S (FetchResolves c2 resp2) st2)) = 0"
    and "snd (step P S (FetchResolves c2 resp2) st2) = [OnOpen]"
    using step_open_resets [of st2 c2 resp2 P S] by simp_all
qed

theorem retry_policy_witness:
  "reconnectAttempts connected_sample = 0 \<and>
   timers (fst (step sample_parse sample_stringify (FetchResolves 0 bad_response) connected_sample))
     = [(1, 1000)] \<and>
   reconnectAttempts
     (fst (step sample_parse sample_stringify (FetchResolves 0 bad_response) connected_sample)) = 1 \<and>
   snd (connect sample_stringify (new_client post_unencodable))
     = [OnError (Thrown ''Converting circular structure to JSON'')] \<and>
   timers (fst (connect sample_stringify (new_client post_unencodable))) = [(1, 3000)] \<and>
   length (timers (failures sample_parse sample_stringify ''network error'' 1 connected_sample)) = 1 \<and>
   reconnectAttempts (failures sample_parse sample_stringify ''network error'' 1 connected_sample) = 1 \<and>
   length (timers (failures sample_parse sample_stringify ''network error'' 2 connected_sample)) = 1 \<and>
   reconnectAttempts (failures sample_parse sample_stringify ''network error'' 2 connected_sample) = 2 \<and>
   timers (failures sample_parse sample_stringify ''network error'' 3 connected_sample) = [] \<and>
   reconnectAttempts (failures sample_parse sample_stringify ''network error'' 3 connected_sample) = 2 \<and>
   reconnectAttempts retrying_sample = 1 \<and>
   reconnectAttempts
     (fst (step sample_parse sample_stringify (FetchResolves 1 good_response) retrying_sample)) = 0"
proof -
  note t = retry_policy
    [where P = sample_parse and S = sample_stringify
       and st = connected_sample and c = 0 and e = "FetchResolves 0 bad_response"
       and resp = bad_response
       and ?st0.0 = "new_client post_unencodable" and ?evs0.0 = "[]"
       and ?opts0.0 = post_unencodable
       and ?err0.0 = "Thrown ''Converting circular structure to JSON''"
       and ?st1.0 = connected_sample and ?evs1.0 = "[Connect]" and ?opts1.0 = retry_sample
       and N = 2 and ?c1.0 = 0 and ?msg1.0 = "''network error''"
       and ?st2.0 = retrying_sample and ?c2.0 = 1 and ?resp2.0 = good_response]
  have h1: "0 < length (connections connected_sample) \<and> \<not> aborted (connections connected_sample ! 0) \<and>
    ((FetchResolves 0 bad_response = Rejects 0 msg \<and> phase (connections connected_sample ! 0) \<noteq> Ended) \<or>
     (FetchResolves 0 bad_response = FetchResolves 0 bad_response \<and>
      phase (connections connected_sample ! 0) = Fetching \<and>
      (\<not> ok bad_response \<or> \<not> has_body bad_response)))" for msg
    by (simp add: connected_sample_eq bad_response_def)
  have v1: "c_autoReconnect (connections connected_sample ! 0)"
    "c_maxReconnectAttempts (connections connected_sample ! 0) = 2"
    "c_reconnectDelay (connections connected_sample ! 0) = 1000"
    "reconnectAttempts connected_sample = 0" "timers connected_sample = []"
    "timer_count connected_sample = 1"
    by (simp_all add: connected_sample_eq)
  have p1: "timers (fst (step sample_parse sample_stringify (FetchResolves 0 bad_response) connected_sample))
     = [(1, 1000)] \<and>
   reconnectAttempts
     (fst (step sample_parse sample_stringify (FetchResolves 0 bad_response) connected_sample)) = 1"
    using t [THEN conjunct1, rule_format, OF h1] v1 by simp
  have h2: "new_client post_unencodable
              = fst (run sample_parse sample_stringify [] (new_client post_unencodable)) \<and>
    buildRequest sample_stringify (options (new_client post_unencodable))
       (length (connections (new_client post_unencodable)))
      = Inl (Thrown ''Converting circular structure to JSON'')"
    by (simp add: client_eval)
  have v2: "c_autoReconnect (new_connection (options (new_client post_unencodable)))"
    "c_maxReconnectAttempts (new_connection (options (new_client post_unencodable))) = 5"
    "c_reconnectDelay (new_connection (options (new_client post_unencodable))) = 3000"
    "reconnectAttempts (new_client post_unencodable) = 0"
    "timer_count (new_client post_unencodable) = 1"
    by (simp_all add: new_connection_def new_client_def post_unencodable_def)
  have p2: "snd (connect sample_stringify (new_client post_unencodable))
     = [OnError (Thrown ''Converting circular structure to JSON'')] \<and>
   timers (fst (connect sample_stringify (new_client post_unencodable))) = [(1, 3000)]"
    using t [THEN conjunct2, THEN conjunct1, rule_format, OF h2] v2 by simp
  have h3a: "connected_sample = fst (run sample_parse sample_stringify [Connect] (new_client retry_sample))"
    by (rule connected_sample_def)
  have h3b: "0 < (2::nat) \<and>
    autoReconnect (options connected_sample) = Some True \<and>
    maxReconnectAttempts (options connected_sample) = Some (int 2) \<and>
    (\<forall>sig. \<exists>r. buildRequest sample_stringify (options connected_sample) sig = Inr r) \<and>
    abortController connected_sample = Some 0 \<and> phase (connections connected_sample ! 0) \<noteq> Ended \<and>
    c_autoReconnect (connections connected_sample ! 0) \<and>
    c_maxReconnectAttempts (connections connected_sample ! 0) = int 2 \<and>
    reconnectAttempts connected_sample = 0"
    by (simp add: connected_sample_eq retry_sample_def buildRequest_def)
  have h3: "connected_sample = fst (run sample_parse sample_stringify [Connect] (new_client retry_sample)) \<and>
    0 < (2::nat) \<and>
    autoReconnect (options connected_sample) = Some True \<and>
    maxReconnectAttempts (options connected_sample) = Some (int 2) \<and>
    (\<forall>sig. \<exists>r. buildRequest sample_stringify (options connected_sample) sig = Inr r) \<and>
    abortController connected_sample = Some 0 \<and> phase (connections connected_sample ! 0) \<noteq> Ended \<and>
    c_autoReconnect (connections connected_sample ! 0) \<and>
    c_maxReconnectAttempts (connections connected_sample ! 0) = int 2 \<and>
    reconnectAttempts connected_sample = 0"
    using h3a h3b by (rule conjI)
  note t3 = t [THEN conjunct2, THEN conjunct2, THEN conjunct1, rule_format, OF h3]
  have p3: "length (timers (failures sample_parse sample_stringify ''network error'' 1 connected_sample)) = 1 \<and>
   reconnectAttempts (failures sample_parse sample_stringify ''network error'' 1 connected_sample) = 1 \<and>
   length (timers (failures sample_parse sample_stringify ''network error'' 2 connected_sample)) = 1 \<and>
   reconnectAttempts (failures sample_parse sample_stringify ''network error'' 2 connected_sample) = 2 \<and>
   timers (failures sample_parse sample_stringify ''network error'' 3 connected_sample) = [] \<and>
   reconnectAttempts (failures sample_parse sample_stringify ''network error'' 3 connected_sample) = 2"
  proof -
    have a: "1 \<le> (1::nat) \<and> (1::nat) \<le> 2" "1 \<le> (2::nat) \<and> (2::nat) \<le> 2" by simp_all
    have e: "(2::nat) + 1 = 3" by simp
    show ?thesis
      using t3 [THEN conjunct1, rule_format, OF a(1)] t3 [THEN conjunct1, rule_format, OF a(2)]
        t3 [THEN conjunct2, unfolded e]
      by blast
  qed
  have h4: "phase_of retrying_sample 1 = Fetching \<and> ok good_response \<and> has_body good_response"
    by (simp add: retrying_sample_eq phase_of_def good_response_def)
  have p4: "reconnectAttempts
     (fst (step sample_parse sample_stringify (FetchResolves 1 good_response) retrying_sample)) = 0"
    using t [THEN conjunct2, THEN conjunct2, THEN conjunct2, rule_format, OF h4] by blast
  have v4: "reconnectAttempts retrying_sample = 1" by (simp add: retrying_sample_eq)
  show ?thesis using p1 p2 p3 p4 v1(4) v4 by blast
qed

subsection \<open>The request\<close>

lemma catch_block_effects:
  "snd (catch_block c err st) = [] \<or> snd (catch_block c err st) = [OnError err]"
  by (simp add: catch_block_def Let_def)

lemma connect_fetch:
  assumes "snd (connect S st) = [Fetch u req]"
  shows "buildRequest S (options st) (length (connections st)) = Inr req \<and> u = url (options st)"
proof (cases "buildRequest S (options st) (length (connections st))")
  case (Inl err)
  then show ?thesis
    using assms catch_block_effects [of "length (connections st)" err "pre_connect st"]
    by (auto simp: connect_eq)
next
  case (Inr r)
  then show ?thesis using assms by (simp add: connect_eq)
qed

lemma buildRequest_no_body:
  "\<not> sends_body opts \<Longrightarrow>
     buildRequest S opts sig =
       Inr \<lparr>req_method = (case opt_method opts of None \<Rightarrow> GET | Some x \<Rightarrow> x),
            req_headers = [''Accept'' \<mapsto> ''text/event-stream'', ''Cache-Control'' \<mapsto> ''no-cache'']
                            ++ caller_headers opts,
            req_body = None, req_signal = sig\<rparr>"
  by (cases "opt_method opts")
     (auto simp: buildRequest_def sends_body_def caller_headers_def Let_def)

lemma buildRequest_string:
  "sends_body opts \<Longrightarrow> body opts = Some (BodyString s) \<Longrightarrow>
     buildRequest S opts sig =
       Inr \<lparr>req_method = POST,
            req_headers = ([''Accept'' \<mapsto> ''text/event-stream'', ''Cache-Control'' \<mapsto> ''no-cache'']
                            ++ caller_headers opts)(''Content-Type'' \<mapsto> ''application/json''),
            req_body = Some s, req_signal = sig\<rparr>"
  by (simp add: buildRequest_def sends_body_def caller_headers_def Let_def)

lemma buildRequest_record:
  "sends_body opts \<Longrightarrow> body opts = Some (BodyRecord r) \<Longrightarrow>
     buildRequest S opts sig =
       (case S r of
          Inl e \<Rightarrow> Inl (Thrown e)
        | Inr t \<Rightarrow>
          Inr \<lparr>req_method = POST,
               req_headers = ([''Accept'' \<mapsto> ''text/event-stream'', ''Cache-Control'' \<mapsto> ''no-cache'']
                               ++ caller_headers opts)(''Content-Type'' \<mapsto> ''application/json''),
               req_body = Some t, req_signal = sig\<rparr>)"
  by (simp add: buildRequest_def sends_body_def caller_headers_def Let_def split: sum.splits)

lemma default_headers:
  "([''Accept'' \<mapsto> ''text/event-stream'', ''Cache-Control'' \<mapsto> ''no-cache''] ++ h) k =
     (case h k of
        Some v \<Rightarrow> Some v
      | None \<Rightarrow> if k = ''Accept'' then Some ''text/event-stream''
                else if k = ''Cache-Control'' then Some ''no-cache'' else None)"
  by (simp add: map_add_def split: option.splits)

lemma buildRequest_headers:
  assumes b: "buildRequest S opts sig = Inr req"
  shows "k \<noteq> ''Content-Type'' \<or> \<not> sends_body opts \<Longrightarrow>
           req_headers req k =
             (case caller_headers opts k of
                Some v \<Rightarrow> Some v
              | None \<Rightarrow> if k = ''Accept'' then Some ''text/event-stream''
                        else if k = ''Cache-Control'' then Some ''no-cache'' else None)"
    and "sends_body opts \<Longrightarrow> req_headers req ''Content-Type'' = Some ''application/json''"
    and "req_method req = (case opt_method opts of None \<Rightarrow> GET | Some m \<Rightarrow> m)"
proof -
  consider (none) "\<not> sends_body opts"
    | (str) s where "sends_body opts" "body opts = Some (BodyString s)"
    | (rec) r where "sends_body opts" "body opts = Some (BodyRecord r)"
    by (cases "body opts"; cases "the (body opts)") (auto simp: sends_body_def)
  then have "req_headers req =
        (if sends_body opts
         then ([''Accept'' \<mapsto> ''text/event-stream'', ''Cache-Control'' \<mapsto> ''no-cache'']
                 ++ caller_headers opts)(''Content-Type'' \<mapsto> ''application/json'')
         else [''Accept'' \<mapsto> ''text/event-stream'', ''Cache-Control'' \<mapsto> ''no-cache'']
                 ++ caller_headers opts) \<and>
        req_method req = (case opt_method opts of None \<Rightarrow> GET | Some m \<Rightarrow> m)"
  proof cases
    case none
    then show ?thesis using b by (auto simp: buildRequest_no_body)
  next
    case str
    then show ?thesis using b by (auto simp: buildRequest_string sends_body_def)
  next
    case rec
    then show ?thesis using b
      by (cases "S r") (auto simp: buildRequest_record sends_body_def)
  qed
  then have h: "req_headers req =
        (if sends_body opts
         then ([''Accept'' \<mapsto> ''text/event-stream'', ''Cache-Control'' \<mapsto> ''no-cache'']
                 ++ caller_headers opts)(''Content-Type'' \<mapsto> ''application/json'')
         else [''Accept'' \<mapsto> ''text/event-stream'', ''Cache-Control'' \<mapsto> ''no-cache'']
                 ++ caller_headers opts)"
    and m: "req_method req = (case opt_method opts of None \<Rightarrow> GET | Some m \<Rightarrow> m)" by simp_all
  show "req_method req = (case opt_method opts of None \<Rightarrow> GET | Some m \<Rightarrow> m)" by (rule m)
  show "req_headers req ''Content-Type'' = Some ''application/json''" if "sends_body opts"
    using that by (simp add: h)
  show "req_headers req k =
             (case caller_headers opts k of
                Some v \<Rightarrow> Some v
              | None \<Rightarrow> if k = ''Accept'' then Some ''text/event-stream''
                        else if k = ''Cache-Control'' then Some ''no-cache'' else None)"
    if "k \<noteq> ''Content-Type'' \<or> \<not> sends_body opts"
  proof (cases "sends_body opts")
    case True
    then have "k \<noteq> ''Content-Type''" using that by simp
    then have upd: "\<And>m::string \<rightharpoonup> string. (m(''Content-Type'' \<mapsto> ''application/json'')) k = m k"
      by simp
    have "req_headers req k =
      ([''Accept'' \<mapsto> ''text/event-stream'', ''Cache-Control'' \<mapsto> ''no-cache'']
         ++ caller_headers opts) k"
      using True by (simp only: h if_True upd)
    then show ?thesis by (simp only: default_headers)
  next
    case False
    then show ?thesis by (simp only: h if_False default_headers)
  qed
qed

lemma buildRequest_body:
  assumes b: "buildRequest S opts sig = Inr req"
  shows "sends_body opts \<Longrightarrow> body opts = Some (BodyString s) \<Longrightarrow> req_body req = Some s"
    and "sends_body opts \<Longrightarrow> body opts = Some (BodyRecord r) \<Longrightarrow>
           \<exists>t. S r = Inr t \<and> req_body req = Some t"
    and "\<not> sends_body opts \<Longrightarrow> req_body req = None"
proof -
  show "req_body req = Some s" if "sends_body opts" "body opts = Some (BodyString s)"
    using that b by (auto simp: buildRequest_string)
  show "\<exists>t. S r = Inr t \<and> req_body req = Some t"
    if "sends_body opts" "body opts = Some (BodyRecord r)"
    using that b by (cases "S r") (auto simp: buildRequest_record)
  show "req_body req = None" if "\<not> sends_body opts"
    using that b by (auto simp: buildRequest_no_body)
qed

text \<open>
  C3, as the code has it. The request a \<open>connect\<close> issues goes to the configured
  address with the configured method (\<open>GET\<close> by default). Its headers are the
  caller's, and \<open>Accept: text/event-stream\<close> and \<open>Cache-Control: no-cache\<close> where
  the caller gives no header of that name (a caller's header of the same name
  replaces the default). When the method is \<open>POST\<close> and the body is truthy (a string
  that is not empty, or any record), \<open>Content-Type\<close> is \<open>application/json\<close>, for a
  string body as for a record and whatever the caller gave for it; a string body is
  sent as it is and a record body as \<open>JSON.stringify\<close> encodes it. Otherwise no body
  is sent and \<open>Content-Type\<close> is the caller's, if any.
\<close>

theorem request_construction:
  "snd (connect S st) = [Fetch u req] \<Longrightarrow>
     u = url (options st) \<and>
     req_method req = (case opt_method (options st) of None \<Rightarrow> GET | Some m \<Rightarrow> m) \<and>
     (\<forall>k. k \<noteq> ''Content-Type'' \<or> \<not> sends_body (options st) \<longrightarrow>
          req_headers req k =
            (case caller_headers (options st) k of
               Some v \<Rightarrow> Some v
             | None \<Rightarrow> if k = ''Accept'' then Some ''text/event-stream''
                       else if k = ''Cache-Control'' then Some ''no-cache'' else None)) \<and>
     (sends_body (options st) \<longrightarrow>
        req_headers req ''Content-Type'' = Some ''application/json'') \<and>
     (\<forall>s. sends_body (options st) \<and> body (options st) = Some (BodyString s) \<longrightarrow>
          req_body req = Some s) \<and>
     (\<forall>r. sends_body (options st) \<and> body (options st) = Some (BodyRecord r) \<longrightarrow>
          (\<exists>t. S r = Inr t \<and> req_body req = Some t)) \<and>
     (\<not> sends_body (options st) \<longrightarrow> req_body req = None)"
proof -
  assume "snd (connect S st) = [Fetch u req]"
  then have b: "buildRequest S (options st) (length (connections st)) = Inr req"
    and u: "u = url (options st)"
    using connect_fetch [of S st u req] by simp_all
  show ?thesis
    using buildRequest_headers [OF b] buildRequest_body [OF b] u by blast
qed

lemma post_record_fetch:
  "snd (connect sample_stringify (new_client post_record)) = [Fetch (Some ''/chat'') post_record_request]"
  by (simp add: client_eval post_record_request_def)

theorem request_construction_witness:
  "snd (connect sample_stringify (new_client post_record)) = [Fetch (Some ''/chat'') post_record_request] \<and>
   req_headers post_record_request ''Accept'' = Some ''text/event-stream'' \<and>
   req_headers post_record_request ''Cache-Control'' = Some ''no-cache'' \<and>
   req_headers post_record_request ''Authorization'' = Some ''Bearer t'' \<and>
   req_headers post_record_request ''Content-Type'' = Some ''application/json'' \<and>
   (\<exists>t. sample_stringify (JObj [(''q'', JStr ''hi'')]) = Inr t \<and>
        req_body post_record_request = Some t) \<and>
   map request_body (snd (connect sample_stringify (new_client post_string))) = [Some ''q=hi''] \<and>
   map (request_header ''Content-Type'') (snd (connect sample_stringify (new_client post_string)))
     = [Some ''application/json'']"
proof -
  have ps: "map request_body (snd (connect sample_stringify (new_client post_string))) = [Some ''q=hi'']"
    "map (request_header ''Content-Type'') (snd (connect sample_stringify (new_client post_string)))
       = [Some ''application/json'']"
    by (simp_all add: client_eval)
  have o: "options (new_client post_record) = post_record" by (simp add: new_client_def)
  have sb: "sends_body post_record" by (simp add: sends_body_def post_record_def)
  have b: "body post_record = Some (BodyRecord (JObj [(''q'', JStr ''hi'')]))"
    by (simp add: post_record_def)
  have c: "caller_headers post_record ''Accept'' = None"
          "caller_headers post_record ''Cache-Control'' = None"
          "caller_headers post_record ''Authorization'' = Some ''Bearer t''"
    by (simp_all add: caller_headers_def post_record_def)
  note t = request_construction [OF post_record_fetch, unfolded o]
  have "req_headers post_record_request ''Accept'' = Some ''text/event-stream''"
    using t c(1) by simp
  moreover have "req_headers post_record_request ''Cache-Control'' = Some ''no-cache''"
    using t c(2) by simp
  moreover have "req_headers post_record_request ''Authorization'' = Some ''Bearer t''"
    using t c(3) by simp
  moreover have "req_headers post_record_request ''Content-Type'' = Some ''application/json''"
    using t sb by blast
  moreover have "\<exists>t. sample_stringify (JObj [(''q'', JStr ''hi'')]) = Inr t \<and>
        req_body post_record_request = Some t"
    using t sb b by blast
  ultimately show ?thesis using post_record_fetch ps by blast
qed

text \<open>
  The claim as written fails for a caller that supplies its own \<open>Accept\<close> header:
  the request carries the caller's value, not \<open>text/event-stream\<close>.
\<close>

theorem request_construction_counterexample:
  "map (request_header ''Accept'') (snd (connect sample_stringify (new_client accept_override)))
     = [Some ''application/json''] \<and>
   map (request_header ''Accept'') (snd (connect sample_stringify (new_client accept_override)))
     \<noteq> [Some ''text/event-stream'']"
  by (simp add: client_eval)

end
